theory Spec2Isabelle
  imports Complex_Main "HOL-Library.Sublist"
begin

section \<open>The rendering engine of cornerstone-core: data model\<close>

text \<open>
  The development embeds \<^verbatim>\<open>RenderingEngine.ts\<close>: the class \<^verbatim>\<open>RenderingEngine\<close> with its
  private scheduling fields, the layout computed by \<^verbatim>\<open>setViewports\<close> and \<^verbatim>\<open>resize\<close>, the
  render scheduling (\<^verbatim>\<open>_setViewportsToBeRenderedNextFrame\<close>, \<^verbatim>\<open>_render\<close>,
  \<^verbatim>\<open>_renderFlaggedViewports\<close>) and the life cycle (\<^verbatim>\<open>_reset\<close>, \<^verbatim>\<open>destroy\<close>).
  A private method \<^verbatim>\<open>_m\<close> of the class is named \<open>priv_m\<close> here.
\<close>

subsection \<open>JavaScript numbers\<close>

text \<open>
  Pixel sizes (\<^verbatim>\<open>clientWidth\<close>, \<^verbatim>\<open>clientHeight\<close>, \<^verbatim>\<open>canvas.width\<close>, the running x offset)
  are natural numbers. The numbers obtained by \<^verbatim>\<open>Math.max\<close> and by division are values of
  \<open>jsnum\<close>: an exact rational, one of the two infinities, or NaN. Division by zero and
  \<^verbatim>\<open>Math.max()\<close> of no argument behave as in JavaScript; the rounding of binary floating
  point and the sign of zero are not represented.
\<close>

datatype jsnum = Fin rat | PosInf | NegInf | NaN

abbreviation num :: "nat \<Rightarrow> jsnum" where
  "num n \<equiv> Fin (of_nat n)"

fun js_neg :: "jsnum \<Rightarrow> jsnum" where
  "js_neg (Fin a) = Fin (- a)"
| "js_neg PosInf = NegInf"
| "js_neg NegInf = PosInf"
| "js_neg NaN = NaN"

fun js_add :: "jsnum \<Rightarrow> jsnum \<Rightarrow> jsnum" where
  "js_add NaN _ = NaN"
| "js_add _ NaN = NaN"
| "js_add (Fin a) (Fin b) = Fin (a + b)"
| "js_add (Fin _) PosInf = PosInf"
| "js_add (Fin _) NegInf = NegInf"
| "js_add PosInf (Fin _) = PosInf"
| "js_add NegInf (Fin _) = NegInf"
| "js_add PosInf PosInf = PosInf"
| "js_add NegInf NegInf = NegInf"
| "js_add PosInf NegInf = NaN"
| "js_add NegInf PosInf = NaN"

definition js_sub :: "jsnum \<Rightarrow> jsnum \<Rightarrow> jsnum" where
  "js_sub a b = js_add a (js_neg b)"

fun js_div :: "jsnum \<Rightarrow> jsnum \<Rightarrow> jsnum" where
  "js_div NaN _ = NaN"
| "js_div _ NaN = NaN"
| "js_div (Fin a) (Fin b) =
     (if b = 0 then (if a = 0 then NaN else if 0 < a then PosInf else NegInf)
      else Fin (a / b))"
| "js_div (Fin _) PosInf = Fin 0"
| "js_div (Fin _) NegInf = Fin 0"
| "js_div PosInf (Fin b) = (if 0 \<le> b then PosInf else NegInf)"
| "js_div NegInf (Fin b) = (if 0 \<le> b then NegInf else PosInf)"
| "js_div PosInf PosInf = NaN"
| "js_div PosInf NegInf = NaN"
| "js_div NegInf PosInf = NaN"
| "js_div NegInf NegInf = NaN"

fun js_max2 :: "jsnum \<Rightarrow> jsnum \<Rightarrow> jsnum" where
  "js_max2 NaN _ = NaN"
| "js_max2 _ NaN = NaN"
| "js_max2 PosInf _ = PosInf"
| "js_max2 _ PosInf = PosInf"
| "js_max2 NegInf b = b"
| "js_max2 a NegInf = a"
| "js_max2 (Fin a) (Fin b) = Fin (max a b)"

text \<open>\<^verbatim>\<open>Math.max(...xs)\<close>: the largest argument, and \<^verbatim>\<open>-Infinity\<close> when there is none.\<close>

definition Math_max :: "jsnum list \<Rightarrow> jsnum" where
  "Math_max xs = fold (\<lambda>x m. js_max2 m x) xs NegInf"

subsection \<open>Canvases, viewports, scenes\<close>

text \<open>
  An output canvas is held by value: its identity, the size the page lays it out at
  (\<^verbatim>\<open>clientWidth\<close>, \<^verbatim>\<open>clientHeight\<close>) and the size of its pixel buffer
  (\<^verbatim>\<open>width\<close>, \<^verbatim>\<open>height\<close>).
\<close>

record canvas =
  canvasId :: string
  clientWidth :: nat
  clientHeight :: nat
  width :: nat
  height :: nat

type_synonym colour = "rat list"

record viewportInputOptions =
  background :: "colour option"

text \<open>The type \<^verbatim>\<open>ViewportInput\<close>.\<close>

record viewportInput =
  canvas :: canvas
  sceneUID :: string
  viewportUID :: string
  vtype :: string
  defaultOptions :: viewportInputOptions

text \<open>
  Modelled from the spec: the classes \<^verbatim>\<open>Viewport\<close> and \<^verbatim>\<open>Scene\<close> are imported by the engine
  and are not part of the source at hand. A viewport has the fields the engine reads and
  writes (its id, owning scene and engine, output canvas, source rectangle in pixels and
  display options); a scene has its id, the id of its engine, a frame-of-reference tag and
  the ordered collection of its viewports, to which \<^verbatim>\<open>addViewport\<close> appends.
\<close>

record viewport =
  vp_uid :: string
  vp_sceneUID :: string
  vp_renderingEngineUID :: string
  vp_canvas :: canvas
  sx :: nat
  sy :: nat
  sWidth :: nat
  sHeight :: nat
  vp_type :: string
  vp_defaultOptions :: viewportInputOptions

record scene =
  scene_uid :: string
  scene_renderingEngineUID :: string
  frameOfReferenceUID :: "string option"
  scene_viewports :: "viewport list"

definition newScene :: "string \<Rightarrow> string \<Rightarrow> scene" where
  "newScene suid euid =
     \<lparr>scene_uid = suid, scene_renderingEngineUID = euid,
      frameOfReferenceUID = None, scene_viewports = []\<rparr>"

definition addViewport ::
  "string \<Rightarrow> string \<Rightarrow> canvas \<Rightarrow> nat \<Rightarrow> nat \<Rightarrow> nat \<Rightarrow> nat \<Rightarrow> viewportInputOptions
     \<Rightarrow> scene \<Rightarrow> scene" where
  "addViewport vuid ty c x y w h opts sc =
     sc\<lparr>scene_viewports := scene_viewports sc @
        [\<lparr>vp_uid = vuid, vp_sceneUID = scene_uid sc,
          vp_renderingEngineUID = scene_renderingEngineUID sc, vp_canvas = c,
          sx = x, sy = y, sWidth = w, sHeight = h, vp_type = ty,
          vp_defaultOptions = opts\<rparr>]\<rparr>"

subsection \<open>Engine state and its environment\<close>

datatype error = UseAfterDestroy | TypeError | RenderPassError

text \<open>The event names of \<^verbatim>\<open>enums/events\<close> that the engine triggers.\<close>

datatype events = ELEMENT_ENABLED | ELEMENT_DISABLED | IMAGE_RENDERED

text \<open>
  The \<^verbatim>\<open>eventData\<close> objects \<^verbatim>\<open>{canvas, viewportUID, sceneUID, renderingEngineUID}\<close>.
\<close>

record eventData =
  ev_canvas :: canvas
  ev_viewportUID :: string
  ev_sceneUID :: string
  ev_renderingEngineUID :: string

text \<open>
  What the engine does to the world outside it, in the order it happens: one render pass
  of the shared window, \<^verbatim>\<open>drawImage\<close> on a canvas with its eight numeric arguments, and
  \<^verbatim>\<open>triggerEvent\<close>.
\<close>

datatype effect =
    RenderPass
  | DrawImage canvas nat nat nat nat nat nat nat nat
  | Triggered events eventData

text \<open>
  A renderer of the offscreen multi render window: its uid, its normalized viewport
  \<^verbatim>\<open>[x0, y0, x1, y1]\<close> and its background.
\<close>

record renderer =
  r_uid :: string
  r_viewport :: "jsnum \<times> jsnum \<times> jsnum \<times> jsnum"
  r_background :: colour

text \<open>
  The fields of \<^verbatim>\<open>RenderingEngine\<close>, followed by the part of the environment the engine
  acts on. \<open>renderers\<close> and \<open>windowReleased\<close> stand for \<^verbatim>\<open>offscreenMultiRenderWindow\<close>
  (every method that reads the window checks \<^verbatim>\<open>hasBeenDestroyed\<close> first);
  \<open>containerWidth\<close> and \<open>containerHeight\<close> are the two properties set on
  \<^verbatim>\<open>webGLCanvasContainer\<close>, undefined until \<^verbatim>\<open>setViewports\<close> or \<^verbatim>\<open>resize\<close> runs;
  \<open>needsRender\<close> is the JavaScript \<^verbatim>\<open>Set\<close> in insertion order.
  Environment: \<open>inCache\<close> says whether \<^verbatim>\<open>renderingEngineCache\<close> holds the engine;
  \<open>rafPending\<close> lists the handles of the animation-frame callbacks that were requested and
  have neither fired nor been cancelled, \<open>rafNext\<close> is the handle the next request gets;
  \<open>trace\<close> records the effects.
\<close>

record state =
  uid :: string
  hasBeenDestroyed :: bool
  windowReleased :: bool
  renderers :: "renderer list"
  containerWidth :: "jsnum option"
  containerHeight :: "jsnum option"
  scenes :: "scene list"
  needsRender :: "string list"
  animationFrameSet :: bool
  animationFrameHandle :: "nat option"
  inCache :: bool
  rafPending :: "nat list"
  rafNext :: nat
  trace :: "effect list"

text \<open>
  A method that returns nothing yields the error it threw, if any, and the state it left
  behind: a JavaScript exception undoes nothing.
\<close>

type_synonym outcome = "error option \<times> state"

text \<open>
  The constructor; \<open>fresh\<close> is the value \<^verbatim>\<open>uuidv4()\<close> would return. The first animation
  frame handle of the page is 1.
\<close>

definition newRenderingEngine :: "string \<Rightarrow> string \<Rightarrow> state" where
  "newRenderingEngine u fresh =
     \<lparr>uid = (if u \<noteq> [] then u else fresh), hasBeenDestroyed = False,
      windowReleased = False, renderers = [], containerWidth = None,
      containerHeight = None, scenes = [], needsRender = [],
      animationFrameSet = False, animationFrameHandle = None, inCache = True,
      rafPending = [], rafNext = 1, trace = []\<rparr>"

subsection \<open>The JavaScript \<^verbatim>\<open>Set\<close> of flagged viewports\<close>

definition set_add :: "string \<Rightarrow> string list \<Rightarrow> string list" where
  "set_add x xs = (if x \<in> set xs then xs else xs @ [x])"

definition set_delete :: "string \<Rightarrow> string list \<Rightarrow> string list" where
  "set_delete x xs = removeAll x xs"

subsection \<open>The host: animation frames\<close>

text \<open>
  \<^verbatim>\<open>window.requestAnimationFrame\<close> hands out the next handle and remembers the callback;
  \<^verbatim>\<open>window.cancelAnimationFrame\<close> forgets it (a null or unknown handle cancels nothing).
\<close>

definition requestAnimationFrame :: "state \<Rightarrow> nat \<times> state" where
  "requestAnimationFrame s =
     (rafNext s, s\<lparr>rafPending := rafPending s @ [rafNext s], rafNext := rafNext s + 1\<rparr>)"

definition cancelAnimationFrame :: "nat option \<Rightarrow> state \<Rightarrow> state" where
  "cancelAnimationFrame h s =
     (case h of None \<Rightarrow> s | Some n \<Rightarrow> s\<lparr>rafPending := removeAll n (rafPending s)\<rparr>)"

section \<open>The methods of the engine\<close>

subsection \<open>Guards and getters\<close>

definition priv_throwIfDestroyed :: "state \<Rightarrow> error option" where
  "priv_throwIfDestroyed s = (if hasBeenDestroyed s then Some UseAfterDestroy else None)"

definition getScene :: "string \<Rightarrow> state \<Rightarrow> error + scene option" where
  "getScene u s =
     (case priv_throwIfDestroyed s of
        Some e \<Rightarrow> Inl e
      | None \<Rightarrow> Inr (find (\<lambda>sc. scene_uid sc = u) (scenes s)))"

definition getScenes :: "state \<Rightarrow> error + scene list" where
  "getScenes s =
     (case priv_throwIfDestroyed s of Some e \<Rightarrow> Inl e | None \<Rightarrow> Inr (scenes s))"

text \<open>The viewports of all scenes, scene after scene.\<close>

definition allViewports :: "scene list \<Rightarrow> viewport list" where
  "allViewports scs = fold (\<lambda>sc vps. vps @ scene_viewports sc) scs []"

definition getViewports :: "state \<Rightarrow> error + viewport list" where
  "getViewports s =
     (case priv_throwIfDestroyed s of
        Some e \<Rightarrow> Inl e
      | None \<Rightarrow> Inr (allViewports (scenes s)))"

subsection \<open>Render scheduling\<close>

definition priv_render :: "state \<Rightarrow> state" where
  "priv_render s =
     (if 0 < length (needsRender s) \<and> animationFrameSet s = False then
        (let (h, s1) = requestAnimationFrame s
         in s1\<lparr>animationFrameHandle := Some h, animationFrameSet := True\<rparr>)
      else s)"

definition priv_setViewportsToBeRenderedNextFrame :: "string list \<Rightarrow> state \<Rightarrow> state" where
  "priv_setViewportsToBeRenderedNextFrame viewportUIDs s =
     priv_render (fold (\<lambda>u s'. s'\<lparr>needsRender := set_add u (needsRender s')\<rparr>) viewportUIDs s)"

definition render :: "state \<Rightarrow> outcome" where
  "render s =
     (case getViewports s of
        Inl e \<Rightarrow> (Some e, s)
      | Inr vps \<Rightarrow> (None, priv_setViewportsToBeRenderedNextFrame (map vp_uid vps) s))"

text \<open>
  \<^verbatim>\<open>renderScene\<close>: an unknown scene id makes \<^verbatim>\<open>getScene\<close> return \<^verbatim>\<open>undefined\<close>, and the call
  of \<^verbatim>\<open>getViewports\<close> on it is a \<^verbatim>\<open>TypeError\<close>.
\<close>

definition renderScene :: "string \<Rightarrow> state \<Rightarrow> outcome" where
  "renderScene u s =
     (case getScene u s of
        Inl e \<Rightarrow> (Some e, s)
      | Inr None \<Rightarrow> (Some TypeError, s)
      | Inr (Some sc) \<Rightarrow>
          (None, priv_setViewportsToBeRenderedNextFrame (map vp_uid (scene_viewports sc)) s))"

text \<open>
  \<^verbatim>\<open>_renderScenes\<close> receives the scenes found, \<^verbatim>\<open>undefined\<close> for an id that names none.
\<close>

fun scenes_viewportUIDs :: "scene option list \<Rightarrow> error + string list" where
  "scenes_viewportUIDs [] = Inr []"
| "scenes_viewportUIDs (None # _) = Inl TypeError"
| "scenes_viewportUIDs (Some sc # rest) =
     (case scenes_viewportUIDs rest of
        Inl e \<Rightarrow> Inl e
      | Inr us \<Rightarrow> Inr (map vp_uid (scene_viewports sc) @ us))"

definition priv_renderScenes :: "scene option list \<Rightarrow> state \<Rightarrow> outcome" where
  "priv_renderScenes scs s =
     (case priv_throwIfDestroyed s of
        Some e \<Rightarrow> (Some e, s)
      | None \<Rightarrow>
          (case scenes_viewportUIDs scs of
             Inl e \<Rightarrow> (Some e, s)
           | Inr us \<Rightarrow> (None, priv_setViewportsToBeRenderedNextFrame us s)))"

definition renderFrameOfReference :: "string \<Rightarrow> state \<Rightarrow> outcome" where
  "renderFrameOfReference f s =
     priv_renderScenes
       (map Some (filter (\<lambda>sc. frameOfReferenceUID sc = Some f) (scenes s))) s"

fun map_getScene :: "string list \<Rightarrow> state \<Rightarrow> error + scene option list" where
  "map_getScene [] s = Inr []"
| "map_getScene (u # us) s =
     (case getScene u s of
        Inl e \<Rightarrow> Inl e
      | Inr sc \<Rightarrow> (case map_getScene us s of Inl e \<Rightarrow> Inl e | Inr scs \<Rightarrow> Inr (sc # scs)))"

definition renderScenes :: "string list \<Rightarrow> state \<Rightarrow> outcome" where
  "renderScenes sceneUIDs s =
     (case map_getScene sceneUIDs s of
        Inl e \<Rightarrow> (Some e, s)
      | Inr scs \<Rightarrow> priv_renderScenes scs s)"

definition renderViewports :: "string list \<Rightarrow> state \<Rightarrow> outcome" where
  "renderViewports viewportUIDs s =
     (None, priv_setViewportsToBeRenderedNextFrame viewportUIDs s)"

definition renderViewport :: "string \<Rightarrow> string \<Rightarrow> state \<Rightarrow> outcome" where
  "renderViewport sUID vUID s = (None, priv_setViewportsToBeRenderedNextFrame [vUID] s)"

subsection \<open>The frame callback\<close>

text \<open>
  \<^verbatim>\<open>triggerEvent\<close> dispatches synchronously, so a listener of \<^verbatim>\<open>IMAGE_RENDERED\<close> runs in the
  middle of the flush. The listeners considered are those that ask the engine to render:
  a listener maps the event data to the viewport id lists it passes, one after the other,
  to \<^verbatim>\<open>renderViewports\<close>. No listener is the function that returns no request.
  Listeners of \<^verbatim>\<open>ELEMENT_ENABLED\<close> and \<^verbatim>\<open>ELEMENT_DISABLED\<close> are taken not to call the engine.
\<close>

type_synonym listener = "eventData \<Rightarrow> string list list"

definition no_listener :: listener where
  "no_listener ed = []"

definition triggerImageRendered :: "listener \<Rightarrow> eventData \<Rightarrow> state \<Rightarrow> state" where
  "triggerImageRendered L ed s =
     fold (\<lambda>ids s'. snd (renderViewports ids s')) (L ed)
       (s\<lparr>trace := trace s @ [Triggered IMAGE_RENDERED ed]\<rparr>)"

definition priv_renderViewportToCanvas :: "listener \<Rightarrow> viewport \<Rightarrow> state \<Rightarrow> state" where
  "priv_renderViewportToCanvas L v s =
     (let c = vp_canvas v;
          s1 = s\<lparr>trace := trace s @
                 [DrawImage c (sx v) (sy v) (sWidth v) (sHeight v) 0 0 (width c) (height c)]\<rparr>
      in triggerImageRendered L
           \<lparr>ev_canvas = c, ev_viewportUID = vp_uid v, ev_sceneUID = vp_sceneUID v,
            ev_renderingEngineUID = vp_renderingEngineUID v\<rparr> s1)"

text \<open>
  The body of the \<^verbatim>\<open>forEach\<close> callback of \<^verbatim>\<open>_renderFlaggedViewports\<close>. Its \<^verbatim>\<open>return\<close> leaves
  the callback only: the iteration goes on with the next viewport.
\<close>

definition flagged_viewport :: "listener \<Rightarrow> viewport \<Rightarrow> state \<Rightarrow> state" where
  "flagged_viewport L v s =
     (if vp_uid v \<in> set (needsRender s) then
        (let s1 = priv_renderViewportToCanvas L v s;
             s2 = s1\<lparr>needsRender := set_delete (vp_uid v) (needsRender s1)\<rparr>
         in if length (needsRender s2) = 0
            then s2\<lparr>animationFrameSet := False, animationFrameHandle := None\<rparr>
            else s2)
      else s)"

text \<open>
  \<^verbatim>\<open>_renderFlaggedViewports\<close>. \<open>rp\<close> is what \<^verbatim>\<open>renderWindow.render()\<close> does in this call:
  \<open>None\<close> when it returns, \<open>Some e\<close> when it throws \<open>e\<close>.
\<close>

definition priv_renderFlaggedViewports :: "listener \<Rightarrow> error option \<Rightarrow> state \<Rightarrow> outcome" where
  "priv_renderFlaggedViewports L rp s =
     (case priv_throwIfDestroyed s of
        Some e \<Rightarrow> (Some e, s)
      | None \<Rightarrow>
          (case rp of
             Some e \<Rightarrow> (Some e, s)
           | None \<Rightarrow>
               (None,
                fold (\<lambda>sc. fold (flagged_viewport L) (scene_viewports sc)) (scenes s)
                  (s\<lparr>trace := trace s @ [RenderPass]\<rparr>))))"

text \<open>
  The host runs the callback registered under handle \<open>h\<close>: the handle is no longer
  pending, and \<^verbatim>\<open>_renderFlaggedViewports\<close> runs.
\<close>

definition fireAnimationFrame :: "nat \<Rightarrow> listener \<Rightarrow> error option \<Rightarrow> state \<Rightarrow> outcome" where
  "fireAnimationFrame h L rp s =
     priv_renderFlaggedViewports L rp (s\<lparr>rafPending := removeAll h (rafPending s)\<rparr>)"

subsection \<open>Reset and destroy\<close>

definition disabledEvents :: "string \<Rightarrow> scene list \<Rightarrow> effect list" where
  "disabledEvents euid scs =
     concat (map (\<lambda>sc. map (\<lambda>v. Triggered ELEMENT_DISABLED
        \<lparr>ev_canvas = vp_canvas v, ev_viewportUID = vp_uid v, ev_sceneUID = scene_uid sc,
         ev_renderingEngineUID = euid\<rparr>) (scene_viewports sc)) scs)"

text \<open>
  \<^verbatim>\<open>_reset\<close>. The marker attributes it removes belong to canvases of viewports that are
  dropped in the same call, and are not represented.
\<close>

definition priv_reset :: "state \<Rightarrow> outcome" where
  "priv_reset s =
     (case getScenes s of
        Inl e \<Rightarrow> (Some e, s)
      | Inr scs \<Rightarrow>
          (let s1 = s\<lparr>trace := trace s @ disabledEvents (uid s) scs\<rparr>;
               s2 = cancelAnimationFrame (animationFrameHandle s1) s1
           in (None, s2\<lparr>needsRender := [], animationFrameSet := False,
                        animationFrameHandle := None, scenes := []\<rparr>)))"

definition destroy :: "state \<Rightarrow> outcome" where
  "destroy s =
     (if hasBeenDestroyed s then (None, s)
      else
        (case priv_reset s of
           (Some e, s1) \<Rightarrow> (Some e, s1)
         | (None, s1) \<Rightarrow>
             (None, s1\<lparr>windowReleased := True, inCache := False, hasBeenDestroyed := True\<rparr>)))"

subsection \<open>Layout: \<^verbatim>\<open>setViewports\<close> and \<^verbatim>\<open>resize\<close>\<close>

definition syncCanvas :: "canvas \<Rightarrow> canvas" where
  "syncCanvas c =
     (if width c \<noteq> clientWidth c \<or> height c \<noteq> clientHeight c
      then c\<lparr>width := clientWidth c, height := clientHeight c\<rparr> else c)"

text \<open>
  The normalized rectangle both methods compute from the pixel rectangle
  \<open>(x, y, w, h)\<close>, the width \<open>W\<close> and the height \<open>H\<close> of the shared canvas.
\<close>

definition displayCoords ::
  "nat \<Rightarrow> jsnum \<Rightarrow> nat \<Rightarrow> nat \<Rightarrow> nat \<Rightarrow> nat \<Rightarrow> jsnum \<times> jsnum \<times> jsnum \<times> jsnum" where
  "displayCoords W H x y w h =
     (let sxDisplayCoords = js_div (num x) (num W);
          syDisplayCoords = js_add (num y) (js_div (js_sub H (num h)) H);
          sWidthDisplayCoords = js_div (num w) (num W);
          sHeightDisplayCoords = js_div (num h) H
      in (sxDisplayCoords, syDisplayCoords,
          js_add sxDisplayCoords sWidthDisplayCoords,
          js_add syDisplayCoords sHeightDisplayCoords))"

text \<open>The object returned by \<^verbatim>\<open>find\<close> is changed in place: the first match, and only it.\<close>

fun update_first :: "('a \<Rightarrow> bool) \<Rightarrow> ('a \<Rightarrow> 'a) \<Rightarrow> 'a list \<Rightarrow> 'a list" where
  "update_first P f [] = []"
| "update_first P f (x # xs) = (if P x then f x # xs else x # update_first P f xs)"

text \<open>
  Modelled from the spec: \<^verbatim>\<open>vtkOffscreenMultiRenderWindow\<close> is imported and not part of the
  source at hand. \<^verbatim>\<open>addRenderer\<close> registers a renderer at a normalized rectangle, or
  updates the renderer registered under the same id; \<^verbatim>\<open>getRenderer\<close> finds the renderer
  of an id; \<^verbatim>\<open>resize\<close> reconciles buffers and changes nothing represented here.
\<close>

definition getRenderer :: "string \<Rightarrow> renderer list \<Rightarrow> renderer option" where
  "getRenderer u rs = find (\<lambda>r. r_uid r = u) rs"

definition addRenderer :: "renderer \<Rightarrow> state \<Rightarrow> state" where
  "addRenderer r s =
     s\<lparr>renderers :=
         (case getRenderer (r_uid r) (renderers s) of
            None \<Rightarrow> renderers s @ [r]
          | Some _ \<Rightarrow> update_first (\<lambda>r'. r_uid r' = r_uid r) (\<lambda>_. r) (renderers s))\<rparr>"

text \<open>
  One turn of the loop of \<^verbatim>\<open>setViewports\<close>, for the descriptor \<open>vp\<close> at the running
  offset \<open>xOffset\<close>, once \<^verbatim>\<open>getScene\<close> has returned \<open>found\<close>.
\<close>

definition setViewports_body ::
  "nat \<Rightarrow> jsnum \<Rightarrow> viewportInput \<Rightarrow> nat \<Rightarrow> scene option \<Rightarrow> state \<Rightarrow> state" where
  "setViewports_body W H vp xOffset found s =
     (let c = syncCanvas (canvas vp);
          s1 = (case found of
                  None \<Rightarrow> s\<lparr>scenes := scenes s @ [newScene (sceneUID vp) (uid s)]\<rparr>
                | Some _ \<Rightarrow> s);
          s2 = addRenderer
                 \<lparr>r_uid = viewportUID vp,
                  r_viewport = displayCoords W H xOffset 0 (width c) (height c),
                  r_background = (case background (defaultOptions vp) of
                                    Some b \<Rightarrow> b | None \<Rightarrow> [0, 0, 0])\<rparr> s1;
          s3 = s2\<lparr>scenes := update_first (\<lambda>sc. scene_uid sc = sceneUID vp)
                    (addViewport (viewportUID vp) (vtype vp) c xOffset 0
                       (width c) (height c) (defaultOptions vp)) (scenes s2)\<rparr>
      in s3\<lparr>trace := trace s3 @ [Triggered ELEMENT_ENABLED
                \<lparr>ev_canvas = c, ev_viewportUID = viewportUID vp,
                 ev_sceneUID = sceneUID vp, ev_renderingEngineUID = uid s3\<rparr>]\<rparr>)"

text \<open>The loop of \<^verbatim>\<open>setViewports\<close> over the descriptors left, \<open>xOffset\<close> being the running sum.\<close>

fun setViewports_loop :: "nat \<Rightarrow> jsnum \<Rightarrow> viewportInput list \<Rightarrow> nat \<Rightarrow> state \<Rightarrow> outcome" where
  "setViewports_loop W H [] xOffset s = (None, s)"
| "setViewports_loop W H (vp # vps) xOffset s =
     (case getScene (sceneUID vp) s of
        Inl e \<Rightarrow> (Some e, s)
      | Inr found \<Rightarrow>
          setViewports_loop W H vps (xOffset + width (syncCanvas (canvas vp)))
            (setViewports_body W H vp xOffset found s))"

definition setViewports :: "viewportInput list \<Rightarrow> state \<Rightarrow> outcome" where
  "setViewports viewports s =
     (case priv_throwIfDestroyed s of
        Some e \<Rightarrow> (Some e, s)
      | None \<Rightarrow>
          (case priv_reset s of
             (Some e, s1) \<Rightarrow> (Some e, s1)
           | (None, s1) \<Rightarrow>
               (let webglCanvasHeight =
                      Math_max (map (\<lambda>vp. num (clientHeight (canvas vp))) viewports);
                    webglCanvasWidth = fold (\<lambda>vp w. w + clientWidth (canvas vp)) viewports 0;
                    s2 = s1\<lparr>containerWidth := Some (num webglCanvasWidth),
                            containerHeight := Some webglCanvasHeight\<rparr>
                in setViewports_loop webglCanvasWidth webglCanvasHeight viewports 0 s2)))"

text \<open>
  The loop of \<^verbatim>\<open>resize\<close> over the collected viewports: each viewport object is updated
  in place, then the renderer of its id is looked up and repositioned; a missing renderer
  is \<^verbatim>\<open>undefined\<close>, and the call of \<^verbatim>\<open>setViewport\<close> on it a \<^verbatim>\<open>TypeError\<close>. The result is the
  error if any, the viewports as they are left, and the renderers.
\<close>

fun resize_loop ::
  "nat \<Rightarrow> jsnum \<Rightarrow> viewport list \<Rightarrow> nat \<Rightarrow> renderer list
     \<Rightarrow> error option \<times> viewport list \<times> renderer list" where
  "resize_loop W H [] xOffset rs = (None, [], rs)"
| "resize_loop W H (v # vs) xOffset rs =
     (let c = syncCanvas (vp_canvas v);
          v' = v\<lparr>vp_canvas := c, sx := xOffset, sy := 0,
                 sWidth := clientWidth c, sHeight := clientHeight c\<rparr>
      in case getRenderer (vp_uid v) rs of
           None \<Rightarrow> (Some TypeError, v' # vs, rs)
         | Some _ \<Rightarrow>
             (let rs' = update_first (\<lambda>r. r_uid r = vp_uid v)
                          (\<lambda>r. r\<lparr>r_viewport := displayCoords W H xOffset 0
                                     (clientWidth c) (clientHeight c)\<rparr>) rs;
                  (e, vs', rs'') = resize_loop W H vs (xOffset + clientWidth c) rs'
              in (e, v' # vs', rs'')))"

text \<open>
  The viewports are objects shared between the collected array and their scenes; with
  scenes held by value, the updated viewports are put back scene by scene.
\<close>

fun put_back :: "scene list \<Rightarrow> viewport list \<Rightarrow> scene list" where
  "put_back [] vs = []"
| "put_back (sc # scs) vs =
     sc\<lparr>scene_viewports := take (length (scene_viewports sc)) vs\<rparr>
       # put_back scs (drop (length (scene_viewports sc)) vs)"

definition resize :: "state \<Rightarrow> outcome" where
  "resize s =
     (case priv_throwIfDestroyed s of
        Some e \<Rightarrow> (Some e, s)
      | None \<Rightarrow>
          (let viewports = allViewports (scenes s);
               webglCanvasHeight =
                 Math_max (map (\<lambda>vp. num (clientHeight (vp_canvas vp))) viewports);
               webglCanvasWidth = fold (\<lambda>vp w. w + clientWidth (vp_canvas vp)) viewports 0;
               (e, vs', rs') =
                 resize_loop webglCanvasWidth webglCanvasHeight viewports 0 (renderers s);
               s1 = s\<lparr>containerWidth := Some (num webglCanvasWidth),
                       containerHeight := Some webglCanvasHeight,
                       scenes := put_back (scenes s) vs', renderers := rs'\<rparr>
           in case e of Some er \<Rightarrow> (Some er, s1) | None \<Rightarrow> render s1))"

subsection \<open>Sequences of render requests\<close>

text \<open>The six public entry points that ask for a render.\<close>

datatype request =
    Render
  | RenderScene string
  | RenderScenes "string list"
  | RenderFrameOfReference string
  | RenderViewports "string list"
  | RenderViewport string string

fun perform :: "request \<Rightarrow> state \<Rightarrow> outcome" where
  "perform Render s = render s"
| "perform (RenderScene u) s = renderScene u s"
| "perform (RenderScenes us) s = renderScenes us s"
| "perform (RenderFrameOfReference f) s = renderFrameOfReference f s"
| "perform (RenderViewports ids) s = renderViewports ids s"
| "perform (RenderViewport su vu) s = renderViewport su vu s"

text \<open>Requests issued one after the other; a request that throws is followed by the next.\<close>

definition perform_all :: "request list \<Rightarrow> state \<Rightarrow> state" where
  "perform_all rs s = fold (\<lambda>r s'. snd (perform r s')) rs s"

text \<open>
  The viewport ids a request asks for, in the words of the specification: all known
  viewports, the viewports of one scene, those of the scenes named or sharing a frame of
  reference, or the ids listed; a request that throws asks for none.
\<close>

fun request_ids :: "request \<Rightarrow> state \<Rightarrow> string list" where
  "request_ids Render s =
     (if hasBeenDestroyed s then [] else map vp_uid (allViewports (scenes s)))"
| "request_ids (RenderScene u) s =
     (if hasBeenDestroyed s then []
      else case find (\<lambda>sc. scene_uid sc = u) (scenes s) of
             None \<Rightarrow> [] | Some sc \<Rightarrow> map vp_uid (scene_viewports sc))"
| "request_ids (RenderScenes us) s =
     (if hasBeenDestroyed s then []
      else case scenes_viewportUIDs (map (\<lambda>u. find (\<lambda>sc. scene_uid sc = u) (scenes s)) us) of
             Inl _ \<Rightarrow> [] | Inr ids \<Rightarrow> ids)"
| "request_ids (RenderFrameOfReference f) s =
     (if hasBeenDestroyed s then []
      else concat (map (\<lambda>sc. map vp_uid (scene_viewports sc))
                     (filter (\<lambda>sc. frameOfReferenceUID sc = Some f) (scenes s))))"
| "request_ids (RenderViewports ids) s = ids"
| "request_ids (RenderViewport su vu) s = [vu]"

subsection \<open>Reachable states\<close>

text \<open>
  The states an engine and its page go through: construction, then any public method
  that changes the state, with any arguments, or the host running the frame callback of
  any handle, pending or stale, with any listener and any outcome of the render pass.
\<close>

inductive reachable :: "state \<Rightarrow> bool" where
  r_new: "reachable (newRenderingEngine u fresh)"
| r_setViewports: "reachable s \<Longrightarrow> reachable (snd (setViewports vps s))"
| r_resize: "reachable s \<Longrightarrow> reachable (snd (resize s))"
| r_request: "reachable s \<Longrightarrow> reachable (snd (perform r s))"
| r_destroy: "reachable s \<Longrightarrow> reachable (snd (destroy s))"
| r_fire: "reachable s \<Longrightarrow> reachable (snd (fireAnimationFrame h L rp s))"

subsection \<open>Example inputs\<close>

definition example_canvas :: "string \<Rightarrow> nat \<Rightarrow> nat \<Rightarrow> canvas" where
  "example_canvas i w h =
     \<lparr>canvasId = i, clientWidth = w, clientHeight = h, width = 300, height = 150\<rparr>"

definition example_input :: "string \<Rightarrow> string \<Rightarrow> canvas \<Rightarrow> viewportInput" where
  "example_input su vu c =
     \<lparr>canvas = c, sceneUID = su, viewportUID = vu, vtype = ''orthographic'',
      defaultOptions = \<lparr>background = None\<rparr>\<rparr>"

definition example_engine :: state where
  "example_engine = newRenderingEngine ''engine'' ''generated''"

text \<open>Two viewports of one scene, laid out at 400 by 300 and 200 by 300.\<close>

definition example_AB :: state where
  "example_AB =
     snd (setViewports
            [example_input ''scene'' ''A'' (example_canvas ''canvasA'' 400 300),
             example_input ''scene'' ''B'' (example_canvas ''canvasB'' 200 300)]
            example_engine)"

text \<open>The same engine after \<^verbatim>\<open>destroy()\<close>.\<close>

definition example_destroyed :: state where
  "example_destroyed = snd (destroy example_AB)"

subsection \<open>Predicates on states\<close>

text \<open>The flag and the handle of the scheduled callback agree.\<close>

definition sched_inv :: "state \<Rightarrow> bool" where
  "sched_inv s = (animationFrameSet s \<longleftrightarrow> animationFrameHandle s \<noteq> None)"

text \<open>
  Between two flushes the engine is idle (nothing flagged, nothing scheduled) or pending
  (a callback scheduled): a flagged viewport comes with a scheduled callback.
\<close>

definition sched_ok :: "state \<Rightarrow> bool" where
  "sched_ok s = (animationFrameSet s \<or> needsRender s = [])"

text \<open>All the viewport ids a sequence of requests asks for.\<close>

definition asked :: "request list \<Rightarrow> state \<Rightarrow> string set" where
  "asked rs s = (\<Union>r \<in> set rs. set (request_ids r s))"

subsection \<open>Blits\<close>

text \<open>
  What one call of \<^verbatim>\<open>_renderViewportToCanvas\<close> does to the outside: the copy of the
  viewport's source rectangle onto its canvas, then the \<^verbatim>\<open>IMAGE_RENDERED\<close> event.
\<close>

definition blit_effects :: "viewport \<Rightarrow> effect list" where
  "blit_effects v =
     [DrawImage (vp_canvas v) (sx v) (sy v) (sWidth v) (sHeight v) 0 0
        (width (vp_canvas v)) (height (vp_canvas v)),
      Triggered IMAGE_RENDERED
        \<lparr>ev_canvas = vp_canvas v, ev_viewportUID = vp_uid v, ev_sceneUID = vp_sceneUID v,
         ev_renderingEngineUID = vp_renderingEngineUID v\<rparr>]"

text \<open>
  A listener that, when viewport \<open>u\<close> has been rendered, asks once for the viewports
  \<open>ids\<close>.
\<close>

definition request_on :: "string \<Rightarrow> string list \<Rightarrow> listener" where
  "request_on u ids ed = (if ev_viewportUID ed = u then [ids] else [])"

text \<open>The example engine after \<^verbatim>\<open>render()\<close>: both viewports flagged, callback 1 scheduled.\<close>

definition example_pending :: state where
  "example_pending = snd (render example_AB)"

text \<open>
  The pending example engine after the host has run callback 1 while a listener asked for
  viewport \<open>A\<close> again: on the event of \<open>B\<close> (after the blit of \<open>A\<close>), or on the event of
  \<open>A\<close> itself.
\<close>

definition example_asked_after :: state where
  "example_asked_after =
     snd (fireAnimationFrame 1 (request_on ''B'' [''A'']) None example_pending)"

definition example_asked_during :: state where
  "example_asked_during =
     snd (fireAnimationFrame 1 (request_on ''A'' [''A'']) None example_pending)"

text \<open>The pending example engine after callback 1 ran and the render pass threw.\<close>

definition example_failed :: state where
  "example_failed =
     snd (fireAnimationFrame 1 no_listener (Some RenderPassError) example_pending)"

text \<open>
  The pending example engine configured anew with the same two descriptors, which resets
  it and cancels callback 1, then asked to render: both new viewports are flagged and
  callback 2 is scheduled.
\<close>

definition example_reconfigured :: state where
  "example_reconfigured =
     snd (render (snd (setViewports
            [example_input ''scene'' ''A'' (example_canvas ''canvasA'' 400 300),
             example_input ''scene'' ''B'' (example_canvas ''canvasB'' 200 300)]
            example_pending)))"

subsection \<open>The packing, in the words of the specification\<close>

text \<open>
  For the sizes \<open>(width, height)\<close> of the output surfaces, in order: the shared surface is
  as wide as the sum of the widths and as high as the largest height; the source
  rectangle \<open>(x, y, width, height)\<close> of each viewport starts at the running sum of the
  widths before it, with \<open>y = 0\<close>.
\<close>

definition packing_width :: "(nat \<times> nat) list \<Rightarrow> nat" where
  "packing_width ds = sum_list (map fst ds)"

definition packing_height :: "(nat \<times> nat) list \<Rightarrow> nat" where
  "packing_height ds = Max (set (map snd ds))"

definition packing_rects :: "(nat \<times> nat) list \<Rightarrow> (nat \<times> nat \<times> nat \<times> nat) list" where
  "packing_rects ds =
     map (\<lambda>i. (sum_list (map fst (take i ds)), 0, fst (ds ! i), snd (ds ! i)))
       [0..<length ds]"

text \<open>The sizes the page gives the canvases of descriptors and of viewports.\<close>

definition input_sizes :: "viewportInput list \<Rightarrow> (nat \<times> nat) list" where
  "input_sizes vps = map (\<lambda>vp. (clientWidth (canvas vp), clientHeight (canvas vp))) vps"

definition viewport_sizes :: "viewport list \<Rightarrow> (nat \<times> nat) list" where
  "viewport_sizes vs =
     map (\<lambda>v. (clientWidth (vp_canvas v), clientHeight (vp_canvas v))) vs"

definition source_rect :: "viewport \<Rightarrow> nat \<times> nat \<times> nat \<times> nat" where
  "source_rect v = (sx v, sy v, sWidth v, sHeight v)"

text \<open>
  The normalized rectangle \<open>[x0, y0, x1, y1]\<close> that the specification gives for a source
  rectangle \<open>(sx, sy, sWidth, sHeight)\<close> on a shared surface \<open>W\<close> wide and \<open>H\<close> high:
  \<open>x0 = sx / W\<close>, \<open>y0 = sy + (H - sHeight) / H\<close>, \<open>x1 = x0 + sWidth / W\<close> and
  \<open>y1 = y0 + sHeight / H\<close>.
\<close>

definition normalized_rect ::
  "nat \<times> nat \<times> nat \<times> nat \<Rightarrow> jsnum \<Rightarrow> jsnum \<Rightarrow> jsnum \<times> jsnum \<times> jsnum \<times> jsnum" where
  "normalized_rect r W H =
     (case r of (x, y, w, h) \<Rightarrow>
        (js_div (num x) W,
         js_add (num y) (js_div (js_sub H (num h)) H),
         js_add (js_div (num x) W) (js_div (num w) W),
         js_add (js_add (num y) (js_div (js_sub H (num h)) H)) (js_div (num h) H)))"

text \<open>The two descriptors of the example engine.\<close>

definition example_inputs :: "viewportInput list" where
  "example_inputs =
     [example_input ''scene'' ''A'' (example_canvas ''canvasA'' 400 300),
      example_input ''scene'' ''B'' (example_canvas ''canvasB'' 200 300)]"

text \<open>Every viewport of the engine has a renderer registered under its id.\<close>

definition has_renderers :: "state \<Rightarrow> bool" where
  "has_renderers s =
     (\<forall>v \<in> set (allViewports (scenes s)). getRenderer (vp_uid v) (renderers s) \<noteq> None)"

section \<open>Evaluation of the examples\<close>

lemmas eval_defs =
  example_engine_def newRenderingEngine_def setViewports_def priv_throwIfDestroyed_def
  priv_reset_def getScenes_def getScene_def getViewports_def allViewports_def
  cancelAnimationFrame_def disabledEvents_def Math_max_def Let_def
  example_input_def example_canvas_def syncCanvas_def addRenderer_def getRenderer_def
  setViewports_body_def
  displayCoords_def js_sub_def newScene_def addViewport_def destroy_def
  renderViewports_def renderViewport_def priv_setViewportsToBeRenderedNextFrame_def
  priv_render_def set_add_def set_delete_def requestAnimationFrame_def render_def
  priv_renderFlaggedViewports_def fireAnimationFrame_def flagged_viewport_def
  priv_renderViewportToCanvas_def triggerImageRendered_def no_listener_def

lemma example_AB_eq:
  "example_AB = \<lparr>uid = ''engine'', hasBeenDestroyed = False, windowReleased = False,
    renderers =
      [\<lparr>r_uid = ''A'', r_viewport = (Fin 0, Fin 0, Fin (2 / 3), Fin 1),
          r_background = [0, 0, 0]\<rparr>,
       \<lparr>r_uid = ''B'', r_viewport = (Fin (2 / 3), Fin 0, Fin 1, Fin 1),
          r_background = [0, 0, 0]\<rparr>],
    containerWidth = Some (Fin 600), containerHeight = Some (Fin 300),
    scenes =
      [\<lparr>scene_uid = ''scene'', scene_renderingEngineUID = ''engine'',
          frameOfReferenceUID = None,
          scene_viewports =
            [\<lparr>vp_uid = ''A'', vp_sceneUID = ''scene'',
                vp_renderingEngineUID = ''engine'',
                vp_canvas =
                  \<lparr>canvasId = ''canvasA'', clientWidth = 400, clientHeight = 300,
                     width = 400, height = 300\<rparr>,
                sx = 0, sy = 0, sWidth = 400, sHeight = 300,
                vp_type = ''orthographic'',
                vp_defaultOptions = \<lparr>background = None\<rparr>\<rparr>,
             \<lparr>vp_uid = ''B'', vp_sceneUID = ''scene'',
                vp_renderingEngineUID = ''engine'',
                vp_canvas =
                  \<lparr>canvasId = ''canvasB'', clientWidth = 200, clientHeight = 300,
                     width = 200, height = 300\<rparr>,
                sx = 400, sy = 0, sWidth = 200, sHeight = 300,
                vp_type = ''orthographic'',
                vp_defaultOptions = \<lparr>background = None\<rparr>\<rparr>]\<rparr>],
    needsRender = [], animationFrameSet = False,
    animationFrameHandle = None, inCache = True, rafPending = [],
    rafNext = 1,
    trace =
      [Triggered ELEMENT_ENABLED
        \<lparr>ev_canvas =
           \<lparr>canvasId = ''canvasA'', clientWidth = 400, clientHeight = 300,
              width = 400, height = 300\<rparr>,
           ev_viewportUID = ''A'', ev_sceneUID = ''scene'',
           ev_renderingEngineUID = ''engine''\<rparr>,
       Triggered ELEMENT_ENABLED
        \<lparr>ev_canvas =
           \<lparr>canvasId = ''canvasB'', clientWidth = 200, clientHeight = 300,
              width = 200, height = 300\<rparr>,
           ev_viewportUID = ''B'', ev_sceneUID = ''scene'',
           ev_renderingEngineUID = ''engine''\<rparr>]\<rparr>"
  by (simp add: example_AB_def eval_defs)

lemma example_destroyed_eq:
  "example_destroyed =
     example_AB\<lparr>scenes := [], hasBeenDestroyed := True, windowReleased := True,
       inCache := False,
       trace := trace example_AB @ disabledEvents ''engine'' (scenes example_AB)\<rparr>"
  by (simp add: example_destroyed_def example_AB_eq eval_defs)

section \<open>Use after destroy\<close>

lemma destroyed_getters:
  "hasBeenDestroyed s \<Longrightarrow> getScene u s = Inl UseAfterDestroy"
  "hasBeenDestroyed s \<Longrightarrow> getScenes s = Inl UseAfterDestroy"
  "hasBeenDestroyed s \<Longrightarrow> getViewports s = Inl UseAfterDestroy"
  by (simp_all add: getScene_def getScenes_def getViewports_def priv_throwIfDestroyed_def)

lemma destroyed_setViewports:
  "hasBeenDestroyed s \<Longrightarrow> setViewports vps s = (Some UseAfterDestroy, s)"
  by (simp add: setViewports_def priv_throwIfDestroyed_def)

lemma destroyed_resize: "hasBeenDestroyed s \<Longrightarrow> resize s = (Some UseAfterDestroy, s)"
  by (simp add: resize_def priv_throwIfDestroyed_def)

lemma destroyed_render: "hasBeenDestroyed s \<Longrightarrow> render s = (Some UseAfterDestroy, s)"
  by (simp add: render_def destroyed_getters)

lemma destroyed_renderScene:
  "hasBeenDestroyed s \<Longrightarrow> renderScene u s = (Some UseAfterDestroy, s)"
  by (simp add: renderScene_def destroyed_getters)

lemma destroyed_renderScenes:
  "hasBeenDestroyed s \<Longrightarrow> renderScenes us s = (Some UseAfterDestroy, s)"
  by (cases us)
     (simp_all add: renderScenes_def destroyed_getters priv_renderScenes_def
        priv_throwIfDestroyed_def)

lemma destroyed_renderFrameOfReference:
  "hasBeenDestroyed s \<Longrightarrow> renderFrameOfReference f s = (Some UseAfterDestroy, s)"
  by (simp add: renderFrameOfReference_def priv_renderScenes_def priv_throwIfDestroyed_def)

lemma destroyed_destroy: "hasBeenDestroyed s \<Longrightarrow> destroy s = (None, s)"
  by (simp add: destroy_def)

lemma destroyed_callback:
  "hasBeenDestroyed s \<Longrightarrow> priv_renderFlaggedViewports L rp s = (Some UseAfterDestroy, s)"
  by (simp add: priv_renderFlaggedViewports_def priv_throwIfDestroyed_def)

lemma destroy_sets_flag: "hasBeenDestroyed (snd (destroy s))"
  by (simp add: destroy_def priv_reset_def getScenes_def priv_throwIfDestroyed_def
      cancelAnimationFrame_def Let_def split: option.splits)

text \<open>
  Claim C4: once \<^verbatim>\<open>destroy()\<close> has set the destroyed flag, every public operation fails
  with a use-after-destroy error, and a second \<^verbatim>\<open>destroy()\<close> is a no-op. The lemmas above
  show this for \<^verbatim>\<open>setViewports\<close>, \<^verbatim>\<open>resize\<close>, the three getters, \<^verbatim>\<open>render\<close>,
  \<^verbatim>\<open>renderScene\<close>, \<^verbatim>\<open>renderScenes\<close>, \<^verbatim>\<open>renderFrameOfReference\<close> and the second
  \<^verbatim>\<open>destroy\<close>. The two remaining methods never call \<^verbatim>\<open>_throwIfDestroyed\<close>: on the
  destroyed example engine, \<^verbatim>\<open>renderViewports(['A'])\<close> and \<^verbatim>\<open>renderViewport('scene', 'A')\<close>
  return normally, flag the viewport and request an animation frame.
\<close>

theorem C4_renderViewports_after_destroy:
  "hasBeenDestroyed example_destroyed
   \<and> renderViewports [''A''] example_destroyed =
       (None, example_destroyed\<lparr>needsRender := [''A''], animationFrameSet := True,
          animationFrameHandle := Some 1, rafPending := [1], rafNext := 2\<rparr>)
   \<and> renderViewport ''scene'' ''A'' example_destroyed =
       (None, example_destroyed\<lparr>needsRender := [''A''], animationFrameSet := True,
          animationFrameHandle := Some 1, rafPending := [1], rafNext := 2\<rparr>)"
  by (simp add: example_destroyed_eq example_AB_eq eval_defs)

section \<open>The empty configuration\<close>

text \<open>
  Claim C9: \<^verbatim>\<open>setViewports([])\<close> succeeds and produces a zero-sized shared surface
  (width 0 and height 0) and an engine with no scenes and no viewports. On a new engine
  the call returns normally and leaves no scene, the width set is 0, but the height set
  is \<^verbatim>\<open>Math.max()\<close> of no argument, which is \<^verbatim>\<open>-Infinity\<close>.
\<close>

theorem C9_setViewports_empty:
  "setViewports [] example_engine =
     (None, example_engine\<lparr>containerWidth := Some (Fin 0), containerHeight := Some NegInf\<rparr>)
   \<and> scenes example_engine = []
   \<and> getViewports (snd (setViewports [] example_engine)) = Inr []"
  by (simp add: eval_defs)

section \<open>The flag and the handle of the scheduled callback\<close>

lemma fold_set_add_state:
  "fold (\<lambda>u s'. s'\<lparr>needsRender := set_add u (needsRender s')\<rparr>) ids s
     = s\<lparr>needsRender := fold set_add ids (needsRender s)\<rparr>"
  by (induction ids arbitrary: s) simp_all

lemma priv_set_unfold:
  "priv_setViewportsToBeRenderedNextFrame ids s
     = priv_render (s\<lparr>needsRender := fold set_add ids (needsRender s)\<rparr>)"
  by (simp add: priv_setViewportsToBeRenderedNextFrame_def fold_set_add_state)

lemma set_fold_set_add: "set (fold set_add ids xs) = set xs \<union> set ids"
  by (induction ids arbitrary: xs) (auto simp: set_add_def)

lemma sched_inv_priv_render: "sched_inv s \<Longrightarrow> sched_inv (priv_render s)"
  by (simp add: sched_inv_def priv_render_def requestAnimationFrame_def)

lemma sched_inv_priv_set:
  "sched_inv s \<Longrightarrow> sched_inv (priv_setViewportsToBeRenderedNextFrame ids s)"
  unfolding priv_set_unfold by (rule sched_inv_priv_render) (simp add: sched_inv_def)

lemma sched_inv_perform: "sched_inv s \<Longrightarrow> sched_inv (snd (perform r s))"
  by (cases r)
     (auto simp: render_def renderScene_def renderScenes_def renderFrameOfReference_def
        priv_renderScenes_def renderViewports_def renderViewport_def sched_inv_priv_set
        split: sum.splits option.splits)

lemma sched_inv_trigger: "sched_inv s \<Longrightarrow> sched_inv (triggerImageRendered L ed s)"
proof -
  have "sched_inv s' \<Longrightarrow> sched_inv (fold (\<lambda>ids s'. snd (renderViewports ids s')) rs s')"
    for rs s'
    by (induction rs arbitrary: s') (simp_all add: renderViewports_def sched_inv_priv_set)
  moreover assume "sched_inv s"
  ultimately show ?thesis
    by (simp add: triggerImageRendered_def sched_inv_def)
qed

lemma sched_inv_flagged: "sched_inv s \<Longrightarrow> sched_inv (flagged_viewport L v s)"
proof -
  assume a: "sched_inv s"
  have "sched_inv (priv_renderViewportToCanvas L v s)"
    unfolding priv_renderViewportToCanvas_def Let_def
    by (rule sched_inv_trigger) (use a in \<open>simp add: sched_inv_def\<close>)
  then show ?thesis using a
    by (simp add: flagged_viewport_def Let_def sched_inv_def)
qed

lemma sched_inv_fold_flagged:
  "sched_inv s \<Longrightarrow> sched_inv (fold (flagged_viewport L) vs s)"
  by (induction vs arbitrary: s) (simp_all add: sched_inv_flagged)

lemma sched_inv_fold_scenes:
  "sched_inv s \<Longrightarrow>
   sched_inv (fold (\<lambda>sc. fold (flagged_viewport L) (scene_viewports sc)) scs s)"
  by (induction scs arbitrary: s) (simp_all add: sched_inv_fold_flagged)

lemma sched_inv_callback:
  "sched_inv s \<Longrightarrow> sched_inv (snd (priv_renderFlaggedViewports L rp s))"
proof -
  assume a: "sched_inv s"
  then have "sched_inv (s\<lparr>trace := trace s @ [RenderPass]\<rparr>)" by (simp add: sched_inv_def)
  then show ?thesis using a
    by (simp add: priv_renderFlaggedViewports_def sched_inv_fold_scenes
        split: option.splits)
qed

lemma sched_inv_fire: "sched_inv s \<Longrightarrow> sched_inv (snd (fireAnimationFrame h L rp s))"
  unfolding fireAnimationFrame_def by (rule sched_inv_callback) (simp add: sched_inv_def)

lemma sched_inv_reset: "sched_inv s \<Longrightarrow> sched_inv (snd (priv_reset s))"
  by (simp add: priv_reset_def sched_inv_def Let_def cancelAnimationFrame_def
      split: sum.splits option.splits)

lemma sched_inv_destroy: "sched_inv s \<Longrightarrow> sched_inv (snd (destroy s))"
  using sched_inv_reset [of s]
  by (auto simp: destroy_def sched_inv_def split: prod.splits option.splits)

lemma setViewports_loop_sched:
  "animationFrameSet (snd (setViewports_loop W H vps x s)) = animationFrameSet s
   \<and> animationFrameHandle (snd (setViewports_loop W H vps x s)) = animationFrameHandle s"
  by (induction W H vps x s rule: setViewports_loop.induct)
     (simp_all add: Let_def setViewports_body_def addRenderer_def
        split: sum.splits option.splits)

lemma sched_inv_setViewports: "sched_inv s \<Longrightarrow> sched_inv (snd (setViewports vps s))"
  using sched_inv_reset [of s]
  by (auto simp: setViewports_def sched_inv_def Let_def setViewports_loop_sched
      split: prod.splits option.splits)

lemma sched_inv_resize: "sched_inv s \<Longrightarrow> sched_inv (snd (resize s))"
proof -
  assume a: "sched_inv s"
  have r: "sched_inv s' \<Longrightarrow> sched_inv (snd (render s'))" for s'
    using sched_inv_perform [of s' Render] by simp
  show ?thesis using a
    by (auto simp: resize_def Let_def split: prod.splits option.splits intro!: r)
       (simp_all add: sched_inv_def)
qed

lemma reachable_sched_inv: "reachable s \<Longrightarrow> sched_inv s"
proof (induction rule: reachable.induct)
  case (r_new u fresh)
  show ?case by (simp add: sched_inv_def newRenderingEngine_def)
qed (simp_all add: sched_inv_setViewports sched_inv_resize sched_inv_perform
      sched_inv_destroy sched_inv_fire)

lemma reachable_example_AB: "reachable example_AB"
  unfolding example_AB_def example_engine_def by (intro r_setViewports r_new)

text \<open>
  Claim C10: in every state reachable by public operations and callback firings, the
  frame-scheduled flag is true if and only if the handle of the scheduled callback is
  not null.
\<close>

theorem C10_flag_iff_handle:
  "reachable s \<Longrightarrow> animationFrameSet s \<longleftrightarrow> animationFrameHandle s \<noteq> None"
  using reachable_sched_inv [of s] by (simp add: sched_inv_def)

theorem C10_flag_iff_handle_witness:
  "reachable (snd (render example_AB))
   \<and> animationFrameSet (snd (render example_AB))
   \<and> animationFrameHandle (snd (render example_AB)) \<noteq> None"
proof -
  have r: "reachable (snd (render example_AB))"
    using r_request [OF reachable_example_AB, of Render] by simp
  have "animationFrameSet (snd (render example_AB))"
    by (simp add: example_AB_eq eval_defs)
  with r C10_flag_iff_handle [OF r] show ?thesis by simp
qed

section \<open>Coalescing of render requests\<close>

lemma priv_set_fields [simp]:
  "scenes (priv_setViewportsToBeRenderedNextFrame ids s) = scenes s"
  "hasBeenDestroyed (priv_setViewportsToBeRenderedNextFrame ids s) = hasBeenDestroyed s"
  "trace (priv_setViewportsToBeRenderedNextFrame ids s) = trace s"
  "set (needsRender (priv_setViewportsToBeRenderedNextFrame ids s)) = set (needsRender s) \<union> set ids"
  by (simp_all add: priv_set_unfold priv_render_def requestAnimationFrame_def set_fold_set_add)

lemma map_getScene_eq:
  "\<not> hasBeenDestroyed s \<Longrightarrow>
   map_getScene us s = Inr (map (\<lambda>u. find (\<lambda>sc. scene_uid sc = u) (scenes s)) us)"
  by (induction us) (simp_all add: getScene_def priv_throwIfDestroyed_def)

lemma allViewports_concat: "allViewports scs = concat (map scene_viewports scs)"
proof -
  have "fold (\<lambda>sc vps. vps @ scene_viewports sc) scs acc = acc @ concat (map scene_viewports scs)" for acc
    by (induction scs arbitrary: acc) simp_all
  then show ?thesis by (simp add: allViewports_def)
qed

lemma scenes_viewportUIDs_Some:
  "scenes_viewportUIDs (map Some scs) = Inr (concat (map (\<lambda>sc. map vp_uid (scene_viewports sc)) scs))"
  by (induction scs) simp_all

lemma priv_set_nil: "sched_ok s \<Longrightarrow> priv_setViewportsToBeRenderedNextFrame [] s = s"
  by (auto simp: priv_set_unfold priv_render_def sched_ok_def)



lemma perform_Render:
  "sched_ok s \<Longrightarrow> snd (render s) = priv_setViewportsToBeRenderedNextFrame (request_ids Render s) s"
  by (simp add: render_def getViewports_def priv_throwIfDestroyed_def priv_set_nil)

lemma perform_RenderScene:
  "sched_ok s \<Longrightarrow>
   snd (renderScene u s) = priv_setViewportsToBeRenderedNextFrame (request_ids (RenderScene u) s) s"
  by (simp add: renderScene_def getScene_def priv_throwIfDestroyed_def priv_set_nil
      split: option.splits)

lemma perform_RenderScenes:
  "sched_ok s \<Longrightarrow>
   snd (renderScenes us s) = priv_setViewportsToBeRenderedNextFrame (request_ids (RenderScenes us) s) s"
proof (cases "hasBeenDestroyed s")
  case True
  assume "sched_ok s"
  with True show ?thesis by (simp add: destroyed_renderScenes priv_set_nil)
next
  case False
  assume "sched_ok s"
  with False show ?thesis
    by (simp add: renderScenes_def map_getScene_eq priv_renderScenes_def
        priv_throwIfDestroyed_def priv_set_nil split: sum.splits)
qed

lemma perform_RenderFrameOfReference:
  "sched_ok s \<Longrightarrow>
   snd (renderFrameOfReference f s)
     = priv_setViewportsToBeRenderedNextFrame (request_ids (RenderFrameOfReference f) s) s"
  by (simp add: renderFrameOfReference_def priv_renderScenes_def priv_throwIfDestroyed_def
      priv_set_nil scenes_viewportUIDs_Some)

lemma perform_is_request:
  "sched_ok s \<Longrightarrow> snd (perform r s) = priv_setViewportsToBeRenderedNextFrame (request_ids r s) s"
  by (cases r)
     (simp_all add: perform_Render perform_RenderScene perform_RenderScenes
        perform_RenderFrameOfReference renderViewports_def renderViewport_def)

lemma request_ids_cong:
  "scenes s' = scenes s \<Longrightarrow> hasBeenDestroyed s' = hasBeenDestroyed s \<Longrightarrow>
   request_ids r s' = request_ids r s"
  by (cases r) simp_all


lemma fold_set_add_nil: "fold set_add ids xs = [] \<longleftrightarrow> xs = [] \<and> ids = []"
proof -
  have "set (fold set_add ids xs) = {} \<longleftrightarrow> xs = [] \<and> ids = []"
    by (simp add: set_fold_set_add)
  then show ?thesis by simp
qed

lemma priv_set_pending:
  "animationFrameSet s \<Longrightarrow>
   priv_setViewportsToBeRenderedNextFrame ids s
     = s\<lparr>needsRender := fold set_add ids (needsRender s)\<rparr>"
  by (simp add: priv_set_unfold priv_render_def)

lemma priv_set_idle:
  "\<not> animationFrameSet s \<Longrightarrow> needsRender s = [] \<Longrightarrow> ids \<noteq> [] \<Longrightarrow>
   priv_setViewportsToBeRenderedNextFrame ids s
     = s\<lparr>needsRender := fold set_add ids [], rafPending := rafPending s @ [rafNext s],
         rafNext := rafNext s + 1, animationFrameHandle := Some (rafNext s),
         animationFrameSet := True\<rparr>"
  by (simp add: priv_set_unfold priv_render_def requestAnimationFrame_def fold_set_add_nil)

lemma priv_set_sched:
  assumes "sched_ok s"
  shows "sched_ok (priv_setViewportsToBeRenderedNextFrame ids s)"
    and "animationFrameSet (priv_setViewportsToBeRenderedNextFrame ids s)
           = (animationFrameSet s \<or> ids \<noteq> [])"
    and "rafNext (priv_setViewportsToBeRenderedNextFrame ids s)
           = rafNext s + (if \<not> animationFrameSet s \<and> ids \<noteq> [] then 1 else 0)"
    and "rafPending (priv_setViewportsToBeRenderedNextFrame ids s)
           = rafPending s @ (if \<not> animationFrameSet s \<and> ids \<noteq> [] then [rafNext s] else [])"
proof -
  consider (pending) "animationFrameSet s"
    | (nothing) "\<not> animationFrameSet s" "needsRender s = []" "ids = []"
    | (first) "\<not> animationFrameSet s" "needsRender s = []" "ids \<noteq> []"
    using assms by (auto simp: sched_ok_def)
  then have "sched_ok (priv_setViewportsToBeRenderedNextFrame ids s)
     \<and> animationFrameSet (priv_setViewportsToBeRenderedNextFrame ids s)
           = (animationFrameSet s \<or> ids \<noteq> [])
     \<and> rafNext (priv_setViewportsToBeRenderedNextFrame ids s)
           = rafNext s + (if \<not> animationFrameSet s \<and> ids \<noteq> [] then 1 else 0)
     \<and> rafPending (priv_setViewportsToBeRenderedNextFrame ids s)
           = rafPending s @ (if \<not> animationFrameSet s \<and> ids \<noteq> [] then [rafNext s] else [])"
  proof cases
    case pending
    then show ?thesis by (simp add: priv_set_pending sched_ok_def)
  next
    case nothing
    then show ?thesis using assms by (simp add: priv_set_nil sched_ok_def)
  next
    case first
    then show ?thesis by (simp add: priv_set_idle sched_ok_def)
  qed
  then show "sched_ok (priv_setViewportsToBeRenderedNextFrame ids s)"
    and "animationFrameSet (priv_setViewportsToBeRenderedNextFrame ids s)
           = (animationFrameSet s \<or> ids \<noteq> [])"
    and "rafNext (priv_setViewportsToBeRenderedNextFrame ids s)
           = rafNext s + (if \<not> animationFrameSet s \<and> ids \<noteq> [] then 1 else 0)"
    and "rafPending (priv_setViewportsToBeRenderedNextFrame ids s)
           = rafPending s @ (if \<not> animationFrameSet s \<and> ids \<noteq> [] then [rafNext s] else [])"
    by simp_all
qed


lemma asked_simps:
  "asked [] s = {}"
  "asked (r # rs) s = set (request_ids r s) \<union> asked rs s"
  by (simp_all add: asked_def)

lemma asked_cong:
  "scenes s' = scenes s \<Longrightarrow> hasBeenDestroyed s' = hasBeenDestroyed s \<Longrightarrow> asked rs s' = asked rs s"
  using request_ids_cong [of s' s] by (simp add: asked_def)



lemma perform_all_window:
  "sched_ok s \<Longrightarrow>
   set (needsRender (perform_all rs s)) = set (needsRender s) \<union> asked rs s
   \<and> rafNext (perform_all rs s)
       = rafNext s + (if \<not> animationFrameSet s \<and> asked rs s \<noteq> {} then 1 else 0)
   \<and> rafPending (perform_all rs s)
       = rafPending s @ (if \<not> animationFrameSet s \<and> asked rs s \<noteq> {} then [rafNext s] else [])"
proof (induction rs arbitrary: s)
  case Nil
  then show ?case by (simp add: perform_all_def asked_simps)
next
  case (Cons r rs)
  let ?ids = "request_ids r s"
  let ?s1 = "priv_setViewportsToBeRenderedNextFrame ?ids s"
  have s1: "snd (perform r s) = ?s1" using Cons.prems by (rule perform_is_request)
  note st = priv_set_sched [OF Cons.prems, of ?ids]
  have a1: "asked rs ?s1 = asked rs s" by (rule asked_cong) simp_all
  have pa: "perform_all (r # rs) s = perform_all rs ?s1"
    by (simp add: perform_all_def s1)
  note ih = Cons.IH [OF st(1), unfolded a1 st(2) st(3) st(4)]
  show ?case
  proof (cases "animationFrameSet s")
    case True
    with ih show ?thesis unfolding pa asked_simps by (simp add: Un_assoc)
  next
    case False
    show ?thesis
    proof (cases "?ids = []")
      case True
      with False ih show ?thesis unfolding pa asked_simps by simp
    next
      case ne: False
      with False ih show ?thesis unfolding pa asked_simps by (simp add: Un_assoc)
    qed
  qed
qed

text \<open>
  Claim C1, as stated: every sequence of render requests issued in one scheduling window
  schedules exactly one frame callback. It fails for a sequence that asks for no viewport:
  \<^verbatim>\<open>render()\<close> on a new engine, which has no viewport, schedules nothing.
\<close>

theorem C1_no_callback_counterexample:
  "\<not> animationFrameSet example_engine \<and> needsRender example_engine = []
   \<and> rafNext (perform_all [Render] example_engine) = rafNext example_engine
   \<and> rafPending (perform_all [Render] example_engine) = []"
  by (simp add: perform_all_def eval_defs)

text \<open>
  Claim C1, amended: for every sequence of render requests issued on an idle engine
  before the callback fires, at most one frame callback is scheduled, and exactly one if
  the requests ask for at least one viewport id (the first request that makes the dirty
  set non-empty schedules it, under the next handle of the host); the dirty set at the end
  equals the union of the viewport ids asked for.
\<close>

theorem C1_coalescing:
  assumes "\<not> animationFrameSet s" and "needsRender s = []"
  shows "set (needsRender (perform_all rs s)) = asked rs s
     \<and> rafNext (perform_all rs s) = rafNext s + (if asked rs s = {} then 0 else 1)
     \<and> rafPending (perform_all rs s)
         = rafPending s @ (if asked rs s = {} then [] else [rafNext s])"
proof -
  have "sched_ok s" using assms by (simp add: sched_ok_def)
  from perform_all_window [OF this, of rs] assms show ?thesis by simp
qed

theorem C1_coalescing_witness:
  "\<not> animationFrameSet example_AB \<and> needsRender example_AB = []
   \<and> set (needsRender
        (perform_all [RenderViewport ''scene'' ''B'', Render, RenderScene ''scene'']
           example_AB)) = {''A'', ''B''}
   \<and> rafPending
        (perform_all [RenderViewport ''scene'' ''B'', Render, RenderScene ''scene'']
           example_AB) = [1]"
proof -
  have h: "\<not> animationFrameSet example_AB" "needsRender example_AB = []"
    by (simp_all add: example_AB_eq)
  have a: "asked [RenderViewport ''scene'' ''B'', Render, RenderScene ''scene''] example_AB
             = {''A'', ''B''}"
    by (auto simp: asked_def example_AB_eq allViewports_def)
  show ?thesis
    using C1_coalescing [OF h, of "[RenderViewport ''scene'' ''B'', Render, RenderScene ''scene'']"]
    unfolding a using h by (simp add: example_AB_eq)
qed

section \<open>The flush\<close>

lemma fold_scenes_flat:
  "fold (\<lambda>sc. fold f (scene_viewports sc)) scs s = fold f (allViewports scs) s"
  unfolding allViewports_concat by (induction scs arbitrary: s) simp_all




lemma flagged_clean: "vp_uid v \<notin> set (needsRender s) \<Longrightarrow> flagged_viewport L v s = s"
  by (simp add: flagged_viewport_def)







lemma fold_requests_pending:
  "animationFrameSet s \<Longrightarrow>
   fold (\<lambda>ids s'. snd (renderViewports ids s')) rs s
     = s\<lparr>needsRender := fold (\<lambda>ids D. fold set_add ids D) rs (needsRender s)\<rparr>"
  by (induction rs arbitrary: s) (simp_all add: renderViewports_def priv_set_pending)

lemma blit_pending:
  "animationFrameSet s \<Longrightarrow>
   priv_renderViewportToCanvas L v s
     = s\<lparr>trace := trace s @ blit_effects v,
         needsRender := fold (\<lambda>ids D. fold set_add ids D)
            (L \<lparr>ev_canvas = vp_canvas v, ev_viewportUID = vp_uid v,
                ev_sceneUID = vp_sceneUID v,
                ev_renderingEngineUID = vp_renderingEngineUID v\<rparr>) (needsRender s)\<rparr>"
  by (simp add: priv_renderViewportToCanvas_def Let_def triggerImageRendered_def
      fold_requests_pending blit_effects_def)

lemma flagged_sched:
  assumes "sched_ok s"
  shows "sched_ok (flagged_viewport L v s)
     \<and> rafPending (flagged_viewport L v s) = rafPending s
     \<and> rafNext (flagged_viewport L v s) = rafNext s"
proof (cases "vp_uid v \<in> set (needsRender s)")
  case False
  with assms show ?thesis by (simp add: flagged_clean)
next
  case True
  then have "needsRender s \<noteq> []" by auto
  with assms have p: "animationFrameSet s" by (simp add: sched_ok_def)
  show ?thesis using True
    by (simp add: flagged_viewport_def Let_def blit_pending [OF p] sched_ok_def p)
qed

lemma fold_flagged_sched:
  "sched_ok s \<Longrightarrow>
   sched_ok (fold (flagged_viewport L) vps s)
   \<and> rafPending (fold (flagged_viewport L) vps s) = rafPending s
   \<and> rafNext (fold (flagged_viewport L) vps s) = rafNext s"
proof (induction vps arbitrary: s)
  case Nil
  then show ?case by simp
next
  case (Cons v vps)
  from flagged_sched [OF Cons.prems, of L v] Cons.IH [of "flagged_viewport L v s"]
  show ?case by simp
qed

lemma callback_unfold:
  "\<not> hasBeenDestroyed s \<Longrightarrow>
   priv_renderFlaggedViewports L None s
     = (None, fold (flagged_viewport L) (allViewports (scenes s))
                (s\<lparr>trace := trace s @ [RenderPass]\<rparr>))"
  by (simp add: priv_renderFlaggedViewports_def priv_throwIfDestroyed_def fold_scenes_flat)

lemma callback_failed_pass:
  "\<not> hasBeenDestroyed s \<Longrightarrow> priv_renderFlaggedViewports L (Some e) s = (Some e, s)"
  by (simp add: priv_renderFlaggedViewports_def priv_throwIfDestroyed_def)

lemma callback_sched:
  assumes "sched_ok s"
  shows "rafPending (snd (priv_renderFlaggedViewports L rp s)) = rafPending s
     \<and> rafNext (snd (priv_renderFlaggedViewports L rp s)) = rafNext s
     \<and> sched_ok (snd (priv_renderFlaggedViewports L rp s))"
proof (cases "hasBeenDestroyed s")
  case True
  with assms show ?thesis by (simp add: destroyed_callback)
next
  case False
  show ?thesis
  proof (cases rp)
    case (Some e)
    with False assms show ?thesis by (simp add: callback_failed_pass)
  next
    case None
    have "sched_ok (s\<lparr>trace := trace s @ [RenderPass]\<rparr>)"
      using assms by (simp add: sched_ok_def)
    from fold_flagged_sched [OF this, of L "allViewports (scenes s)"] None False
    show ?thesis by (simp add: callback_unfold)
  qed
qed






lemma example_pending_eq:
  "example_pending =
     example_AB\<lparr>needsRender := [''A'', ''B''], animationFrameSet := True,
       animationFrameHandle := Some 1, rafPending := [1], rafNext := 2\<rparr>"
  by (simp add: example_pending_def example_AB_eq eval_defs)



text \<open>
  Claim C3: a render request for viewport A that arrives while a flush covering A is in
  progress is not lost: after the in-flight flush a new flush is scheduled and A is
  blitted again, whether the request arrives before or after the blit of A. The engine
  does not do so. With the flush of A and B under way (callback 1 of the pending example
  engine), a listener asks for A on the event of B, after the blit of A: the pass ends
  with A flagged, the flag and the handle still set and no callback pending, A has been
  blitted once, and a later \<^verbatim>\<open>renderViewports(['A'])\<close> or \<^verbatim>\<open>render()\<close> schedules nothing
  either. Asked on the event of A itself, before the id of A is removed, the request
  leaves nothing behind: nothing flagged, nothing pending, A blitted once.
\<close>

theorem C3_request_during_flush_lost:
  "rafPending example_pending = [1]
   \<and> needsRender example_asked_after = [''A'']
   \<and> animationFrameSet example_asked_after
   \<and> animationFrameHandle example_asked_after = Some 1
   \<and> rafPending example_asked_after = []
   \<and> trace example_asked_after
       = trace example_pending
           @ RenderPass # concat (map blit_effects (allViewports (scenes example_pending)))
   \<and> rafPending (snd (renderViewports [''A''] example_asked_after)) = []
   \<and> rafPending (snd (render example_asked_after)) = []
   \<and> needsRender example_asked_during = []
   \<and> rafPending example_asked_during = []
   \<and> trace example_asked_during
       = trace example_pending
           @ RenderPass # concat (map blit_effects (allViewports (scenes example_pending)))"
  by (simp add: example_asked_after_def example_asked_during_def example_pending_eq
      example_AB_eq eval_defs request_on_def blit_effects_def)

section \<open>A failed render pass\<close>

text \<open>
  Claim C8: when the render pass at the start of a flush throws, the flush is aborted
  with no blit performed and the dirty set left as it was, such that a subsequent render
  request causes the flush to be retried. The first half holds: on the pending example
  engine the pass throws in callback 1, nothing is blitted and both viewports stay
  flagged. The retry does not happen: the flag and the handle are still set while no
  callback is pending, and the next \<^verbatim>\<open>renderViewports(['A'])\<close> or \<^verbatim>\<open>render()\<close> schedules
  nothing.
\<close>

theorem C8_failed_pass_no_retry:
  "rafPending example_pending = [1]
   \<and> fst (fireAnimationFrame 1 no_listener (Some RenderPassError) example_pending)
       = Some RenderPassError
   \<and> trace example_failed = trace example_pending
   \<and> needsRender example_failed = [''A'', ''B'']
   \<and> animationFrameSet example_failed
   \<and> animationFrameHandle example_failed = Some 1
   \<and> rafPending example_failed = []
   \<and> rafPending (snd (renderViewports [''A''] example_failed)) = []
   \<and> rafPending (snd (render example_failed)) = []
   \<and> rafNext (snd (render example_failed)) = rafNext example_pending"
  by (simp add: example_failed_def example_pending_eq example_AB_eq eval_defs)

section \<open>Stale callbacks\<close>

lemma setViewports_loop_fields:
  "needsRender (snd (setViewports_loop W H vps x s)) = needsRender s
   \<and> hasBeenDestroyed (snd (setViewports_loop W H vps x s)) = hasBeenDestroyed s
   \<and> rafPending (snd (setViewports_loop W H vps x s)) = rafPending s"
  by (induction W H vps x s rule: setViewports_loop.induct)
     (simp_all add: Let_def setViewports_body_def addRenderer_def
        split: sum.splits option.splits)

lemma reset_fields:
  assumes "\<not> hasBeenDestroyed s"
  shows "priv_reset s =
     (None, s\<lparr>trace := trace s @ disabledEvents (uid s) (scenes s),
              rafPending := (case animationFrameHandle s of
                               None \<Rightarrow> rafPending s
                             | Some n \<Rightarrow> removeAll n (rafPending s)),
              needsRender := [], animationFrameSet := False,
              animationFrameHandle := None, scenes := []\<rparr>)"
  using assms
  by (simp add: priv_reset_def getScenes_def priv_throwIfDestroyed_def Let_def
      cancelAnimationFrame_def split: option.splits)

lemma setViewports_clean:
  assumes "\<not> hasBeenDestroyed s"
  shows "needsRender (snd (setViewports vps s)) = []"
    and "\<not> hasBeenDestroyed (snd (setViewports vps s))"
  using assms
  by (simp_all add: setViewports_def priv_throwIfDestroyed_def reset_fields Let_def
      setViewports_loop_fields)

lemma fold_flagged_clean:
  "needsRender s = [] \<Longrightarrow> fold (flagged_viewport L) vps s = s"
  by (induction vps) (simp_all add: flagged_clean)

lemma callback_clean:
  assumes "\<not> hasBeenDestroyed s" and "needsRender s = []"
  shows "priv_renderFlaggedViewports L None s = (None, s\<lparr>trace := trace s @ [RenderPass]\<rparr>)"
  using assms by (simp add: callback_unfold fold_flagged_clean)

lemma destroy_fields:
  assumes "\<not> hasBeenDestroyed s"
  shows "destroy s = (None, (snd (priv_reset s))\<lparr>windowReleased := True, inCache := False,
                              hasBeenDestroyed := True\<rparr>)"
  using assms by (simp add: destroy_def reset_fields)

lemma example_reconfigured_eq:
  "example_reconfigured =
     example_AB\<lparr>needsRender := [''A'', ''B''], animationFrameSet := True,
       animationFrameHandle := Some 2, rafPending := [2], rafNext := 3,
       trace := trace example_AB @ disabledEvents ''engine'' (scenes example_AB)
                  @ trace example_AB\<rparr>"
  by (simp add: example_reconfigured_def example_pending_eq example_AB_eq eval_defs)

text \<open>
  Claim C7, as stated: a stale callback that the host still invokes after a reset,
  including after a destroy, is a silent no-op: no blit, no notification, no error. It
  fails twice. On the pending example engine, \<^verbatim>\<open>destroy()\<close> cancels callback 1; invoked all
  the same, the callback throws the use-after-destroy error. And when the pending engine
  is configured anew and asked to render, callback 1 is cancelled and callback 2
  scheduled; invoked all the same, callback 1 blits both viewports and publishes their
  notifications, and callback 2 is still pending.
\<close>

theorem C7_stale_callback_counterexample:
  "rafPending example_pending = [1]
   \<and> rafPending (snd (destroy example_pending)) = []
   \<and> fst (priv_renderFlaggedViewports no_listener None (snd (destroy example_pending)))
       = Some UseAfterDestroy
   \<and> rafPending example_reconfigured = [2]
   \<and> fireAnimationFrame 1 no_listener None example_reconfigured
       = (None, example_reconfigured
            \<lparr>needsRender := [], animationFrameSet := False, animationFrameHandle := None,
             trace := trace example_reconfigured
               @ RenderPass
               # concat (map blit_effects (allViewports (scenes example_reconfigured)))\<rparr>)"
  by (simp add: example_reconfigured_eq example_pending_eq example_AB_eq eval_defs
      blit_effects_def)

text \<open>
  Claim C7, amended: reset cancels the scheduled frame callback via its handle and clears
  the dirty set, the frame-scheduled flag and the handle, and \<^verbatim>\<open>setViewports\<close> leaves the
  engine live with an empty dirty set. If the host nonetheless invokes the stale callback
  on the live engine while the dirty set is still empty, the callback runs the render
  pass of the shared window and, that pass not failing, nothing else: no blit, no
  notification, no error. After \<^verbatim>\<open>destroy()\<close> the callback performs no blit and publishes
  no notification either, but it throws the use-after-destroy error.
\<close>

theorem C7_reset_and_stale_callback:
  assumes "\<not> hasBeenDestroyed s"
  shows "fst (priv_reset s) = None
     \<and> rafPending (snd (priv_reset s))
         = (case animationFrameHandle s of
              None \<Rightarrow> rafPending s | Some n \<Rightarrow> removeAll n (rafPending s))
     \<and> needsRender (snd (priv_reset s)) = []
     \<and> \<not> animationFrameSet (snd (priv_reset s))
     \<and> animationFrameHandle (snd (priv_reset s)) = None
     \<and> \<not> hasBeenDestroyed (snd (setViewports vps s))
     \<and> needsRender (snd (setViewports vps s)) = []
     \<and> priv_renderFlaggedViewports L None (snd (setViewports vps s))
         = (None, (snd (setViewports vps s))
                    \<lparr>trace := trace (snd (setViewports vps s)) @ [RenderPass]\<rparr>)
     \<and> (\<not> hasBeenDestroyed t \<and> needsRender t = [] \<longrightarrow>
          priv_renderFlaggedViewports L None t = (None, t\<lparr>trace := trace t @ [RenderPass]\<rparr>))
     \<and> priv_renderFlaggedViewports L rp (snd (destroy s))
         = (Some UseAfterDestroy, snd (destroy s))"
  using assms setViewports_clean [OF assms, of vps]
  by (simp add: reset_fields callback_clean destroyed_callback destroy_sets_flag)

theorem C7_reset_and_stale_callback_witness:
  "\<not> hasBeenDestroyed example_pending
   \<and> rafPending example_pending = [1]
   \<and> rafPending (snd (priv_reset example_pending)) = []
   \<and> needsRender example_AB = []
   \<and> priv_renderFlaggedViewports no_listener None example_AB
       = (None, example_AB\<lparr>trace := trace example_AB @ [RenderPass]\<rparr>)
   \<and> fst (priv_renderFlaggedViewports no_listener None (snd (setViewports [] example_pending)))
       = None"
proof -
  have h: "\<not> hasBeenDestroyed example_pending"
    by (simp add: example_pending_eq example_AB_eq)
  have t: "\<not> hasBeenDestroyed example_AB" "needsRender example_AB = []"
    by (simp_all add: example_AB_eq)
  from C7_reset_and_stale_callback
    [OF h, where L = no_listener and vps = "[]" and t = example_AB and rp = None] h t
  show ?thesis by (simp add: example_pending_eq)
qed

section \<open>Layout\<close>

lemma sync_dims [simp]:
  "width (syncCanvas c) = clientWidth c"
  "height (syncCanvas c) = clientHeight c"
  "clientWidth (syncCanvas c) = clientWidth c"
  "clientHeight (syncCanvas c) = clientHeight c"
  "canvasId (syncCanvas c) = canvasId c"
  by (auto simp: syncCanvas_def)

lemma fold_js_max:
  "fold (\<lambda>x m. js_max2 m x) (map (\<lambda>n. num n) xs) (num a) = num (fold max xs a)"
  by (induction xs arbitrary: a) (simp_all add: of_nat_max [symmetric] max.commute)

lemma Math_max_nonempty:
  "xs \<noteq> [] \<Longrightarrow> Math_max (map (\<lambda>n. num n) xs) = num (Max (set xs))"
proof (cases xs)
  case (Cons x xs')
  have "Math_max (map (\<lambda>n. num n) (x # xs')) = num (fold max xs' x)"
    by (simp add: Math_max_def fold_js_max)
  then show ?thesis using Cons Max.set_eq_fold [of x xs'] by simp
qed simp

lemma fold_widths:
  "fold (\<lambda>v w. w + f v) vs (a::nat) = a + sum_list (map f vs)"
  by (induction vs arbitrary: a) simp_all

lemma find_Some_ex: "find P xs = Some x \<Longrightarrow> x \<in> set xs \<and> P x"
  by (induction xs) (auto split: if_splits)

lemma update_first_addViewport:
  assumes "\<exists>sc \<in> set scs. scene_uid sc = u"
  shows "\<exists>v. vp_uid v = vu \<and> vp_sceneUID v = u \<and> source_rect v = (x, y, w, h)
     \<and> allViewports (update_first (\<lambda>sc. scene_uid sc = u) (addViewport vu ty c x y w h opts) scs)
       \<in> {ys. \<exists>as bs. allViewports scs = as @ bs \<and> ys = as @ [v] @ bs}"
  using assms
proof (induction scs)
  case Nil
  then show ?case by simp
next
  case (Cons sc scs)
  show ?case
  proof (cases "scene_uid sc = u")
    case True
    let ?v = "\<lparr>vp_uid = vu, vp_sceneUID = scene_uid sc,
          vp_renderingEngineUID = scene_renderingEngineUID sc, vp_canvas = c,
          sx = x, sy = y, sWidth = w, sHeight = h, vp_type = ty,
          vp_defaultOptions = opts\<rparr>"
    have "allViewports (update_first (\<lambda>sc. scene_uid sc = u) (addViewport vu ty c x y w h opts) (sc # scs))
        = scene_viewports sc @ [?v] @ allViewports scs"
      using True by (simp add: allViewports_concat addViewport_def)
    moreover have "allViewports (sc # scs) = scene_viewports sc @ allViewports scs"
      by (simp add: allViewports_concat)
    ultimately show ?thesis using True
      by (intro exI [of _ ?v]) (auto simp: source_rect_def)
  next
    case False
    with Cons.prems have "\<exists>sc \<in> set scs. scene_uid sc = u" by auto
    from Cons.IH [OF this] obtain v as bs where
      v: "vp_uid v = vu" "vp_sceneUID v = u" "source_rect v = (x, y, w, h)"
      and a: "allViewports scs = as @ bs"
      and b: "allViewports (update_first (\<lambda>sc. scene_uid sc = u) (addViewport vu ty c x y w h opts) scs) = as @ [v] @ bs"
      by auto
    have "allViewports (sc # scs) = (scene_viewports sc @ as) @ bs"
      using a by (simp add: allViewports_concat)
    moreover have "allViewports (update_first (\<lambda>sc. scene_uid sc = u) (addViewport vu ty c x y w h opts) (sc # scs))
        = (scene_viewports sc @ as) @ [v] @ bs"
      using False b by (simp add: allViewports_concat)
    ultimately show ?thesis using v by blast
  qed
qed


lemma find_snoc:
  "find P (xs @ [r]) = (case find P xs of Some y \<Rightarrow> Some y | None \<Rightarrow> if P r then Some r else None)"
  by (induction xs) simp_all

lemma find_update_first_same:
  "r_uid r = k \<Longrightarrow>
   find (\<lambda>r'. r_uid r' = u) (update_first (\<lambda>r'. r_uid r' = k) (\<lambda>_. r) rs)
     = (if u = k then (case find (\<lambda>r'. r_uid r' = k) rs of None \<Rightarrow> None | Some _ \<Rightarrow> Some r)
        else find (\<lambda>r'. r_uid r' = u) rs)"
  by (induction rs) auto

lemma getRenderer_addRenderer:
  "getRenderer u (renderers (addRenderer r s))
     = (if u = r_uid r then Some r else getRenderer u (renderers s))"
  by (cases "find (\<lambda>r'. r_uid r' = r_uid r) (renderers s)")
     (simp_all add: addRenderer_def getRenderer_def find_snoc find_update_first_same
        split: option.splits)

lemma body_fields:
  "hasBeenDestroyed (setViewports_body W H vp x found s) = hasBeenDestroyed s"
  "containerWidth (setViewports_body W H vp x found s) = containerWidth s"
  "containerHeight (setViewports_body W H vp x found s) = containerHeight s"
  by (cases found; simp add: setViewports_body_def Let_def addRenderer_def)+

lemma body_renderer:
  "getRenderer u (renderers (setViewports_body W H vp x found s))
     = (if u = viewportUID vp
        then Some \<lparr>r_uid = viewportUID vp,
                   r_viewport = displayCoords W H x 0 (clientWidth (canvas vp))
                                  (clientHeight (canvas vp)),
                   r_background = (case background (defaultOptions vp) of
                                     Some b \<Rightarrow> b | None \<Rightarrow> [0, 0, 0])\<rparr>
        else getRenderer u (renderers s))"
proof -
  have "renderers (setViewports_body W H vp x found s)
      = renderers (addRenderer
                 \<lparr>r_uid = viewportUID vp,
                  r_viewport = displayCoords W H x 0 (clientWidth (canvas vp)) (clientHeight (canvas vp)),
                  r_background = (case background (defaultOptions vp) of
                                    Some b \<Rightarrow> b | None \<Rightarrow> [0, 0, 0])\<rparr> s)"
    by (cases found; cases "getRenderer (viewportUID vp) (renderers s)")
       (simp_all add: setViewports_body_def Let_def addRenderer_def)
  then show ?thesis by (simp add: getRenderer_addRenderer)
qed

lemma body_viewports:
  assumes "found = find (\<lambda>sc. scene_uid sc = sceneUID vp) (scenes s)"
  shows "\<exists>v as bs. vp_uid v = viewportUID vp \<and> vp_sceneUID v = sceneUID vp
     \<and> source_rect v = (x, 0, clientWidth (canvas vp), clientHeight (canvas vp))
     \<and> allViewports (scenes s) = as @ bs
     \<and> allViewports (scenes (setViewports_body W H vp x found s)) = as @ [v] @ bs"
proof -
  let ?scs = "case found of None \<Rightarrow> scenes s @ [newScene (sceneUID vp) (uid s)] | Some _ \<Rightarrow> scenes s"
  have ex: "\<exists>sc \<in> set ?scs. scene_uid sc = sceneUID vp"
  proof (cases found)
    case None
    then show ?thesis by (simp add: newScene_def)
  next
    case (Some sc)
    with assms have "find (\<lambda>sc. scene_uid sc = sceneUID vp) (scenes s) = Some sc" by simp
    from find_Some_ex [OF this] show ?thesis using Some by auto
  qed
  have same: "allViewports ?scs = allViewports (scenes s)"
    by (cases found) (simp_all add: allViewports_concat newScene_def)
  have sc: "scenes (setViewports_body W H vp x found s)
      = update_first (\<lambda>sc. scene_uid sc = sceneUID vp)
          (addViewport (viewportUID vp) (vtype vp) (syncCanvas (canvas vp)) x 0
             (clientWidth (canvas vp)) (clientHeight (canvas vp)) (defaultOptions vp)) ?scs"
    by (cases found) (simp_all add: setViewports_body_def Let_def addRenderer_def)
  from update_first_addViewport [OF ex, of "viewportUID vp" x 0 "clientWidth (canvas vp)"
      "clientHeight (canvas vp)" "vtype vp" "syncCanvas (canvas vp)" "defaultOptions vp"]
  show ?thesis unfolding sc same by blast
qed


lemma loop_unfold:
  "\<not> hasBeenDestroyed s \<Longrightarrow>
   setViewports_loop W H (vp # vps) x s
     = setViewports_loop W H vps (x + clientWidth (canvas vp))
         (setViewports_body W H vp x (find (\<lambda>sc. scene_uid sc = sceneUID vp) (scenes s)) s)"
  by (simp add: getScene_def priv_throwIfDestroyed_def)

lemma loop_fields:
  "\<not> hasBeenDestroyed s \<Longrightarrow>
   fst (setViewports_loop W H vps x s) = None
   \<and> \<not> hasBeenDestroyed (snd (setViewports_loop W H vps x s))
   \<and> containerWidth (snd (setViewports_loop W H vps x s)) = containerWidth s
   \<and> containerHeight (snd (setViewports_loop W H vps x s)) = containerHeight s"
proof (induction vps arbitrary: x s)
  case Nil
  then show ?case by simp
next
  case (Cons vp vps)
  let ?s1 = "setViewports_body W H vp x (find (\<lambda>sc. scene_uid sc = sceneUID vp) (scenes s)) s"
  have "\<not> hasBeenDestroyed ?s1" using Cons.prems by (simp add: body_fields)
  from Cons.IH [OF this, of "x + clientWidth (canvas vp)"] show ?case
    unfolding loop_unfold [OF Cons.prems] by (simp add: body_fields)
qed

lemma loop_viewports:
  "\<not> hasBeenDestroyed s \<Longrightarrow>
   length (allViewports (scenes (snd (setViewports_loop W H vps x s))))
     = length (allViewports (scenes s)) + length vps
   \<and> set (allViewports (scenes s))
       \<subseteq> set (allViewports (scenes (snd (setViewports_loop W H vps x s))))
   \<and> (\<forall>i < length vps.
         \<exists>v \<in> set (allViewports (scenes (snd (setViewports_loop W H vps x s)))).
           vp_uid v = viewportUID (vps ! i) \<and> vp_sceneUID v = sceneUID (vps ! i)
           \<and> source_rect v
               = (x + sum_list (map (\<lambda>vp. clientWidth (canvas vp)) (take i vps)), 0,
                  clientWidth (canvas (vps ! i)), clientHeight (canvas (vps ! i))))"
proof (induction vps arbitrary: x s)
  case Nil
  then show ?case by simp
next
  case (Cons vp vps)
  let ?s1 = "setViewports_body W H vp x (find (\<lambda>sc. scene_uid sc = sceneUID vp) (scenes s)) s"
  let ?s' = "snd (setViewports_loop W H vps (x + clientWidth (canvas vp)) ?s1)"
  have nd1: "\<not> hasBeenDestroyed ?s1" using Cons.prems by (simp add: body_fields)
  have un: "snd (setViewports_loop W H (vp # vps) x s) = ?s'"
    by (simp only: loop_unfold [OF Cons.prems])
  from body_viewports [OF refl, where vp = vp and s = s and x = x and W = W and H = H] obtain v as bs where
    v: "vp_uid v = viewportUID vp" "vp_sceneUID v = sceneUID vp"
       "source_rect v = (x, 0, clientWidth (canvas vp), clientHeight (canvas vp))"
    and a: "allViewports (scenes s) = as @ bs"
    and b: "allViewports (scenes ?s1) = as @ [v] @ bs"
    by blast
  note ih = Cons.IH [OF nd1, of "x + clientWidth (canvas vp)"]
  from ih have len: "length (allViewports (scenes ?s'))
      = length (allViewports (scenes ?s1)) + length vps" by simp
  from ih have sub: "set (allViewports (scenes ?s1)) \<subseteq> set (allViewports (scenes ?s'))"
    by simp
  from ih have rest: "\<forall>i < length vps. \<exists>w \<in> set (allViewports (scenes ?s')).
           vp_uid w = viewportUID (vps ! i) \<and> vp_sceneUID w = sceneUID (vps ! i)
           \<and> source_rect w
               = (x + clientWidth (canvas vp)
                    + sum_list (map (\<lambda>vp. clientWidth (canvas vp)) (take i vps)), 0,
                  clientWidth (canvas (vps ! i)), clientHeight (canvas (vps ! i)))"
    by simp
  have c1: "length (allViewports (scenes ?s'))
      = length (allViewports (scenes s)) + length (vp # vps)"
    using len a b by simp
  have c2: "set (allViewports (scenes s)) \<subseteq> set (allViewports (scenes ?s'))"
    using sub a b by auto
  have vin: "v \<in> set (allViewports (scenes ?s'))" using sub b by auto
  have c3: "\<exists>w \<in> set (allViewports (scenes ?s')).
           vp_uid w = viewportUID ((vp # vps) ! i) \<and> vp_sceneUID w = sceneUID ((vp # vps) ! i)
           \<and> source_rect w
               = (x + sum_list (map (\<lambda>vp. clientWidth (canvas vp)) (take i (vp # vps))), 0,
                  clientWidth (canvas ((vp # vps) ! i)), clientHeight (canvas ((vp # vps) ! i)))"
    if i: "i < length (vp # vps)" for i
  proof (cases i)
    case 0
    with v vin show ?thesis by auto
  next
    case (Suc j)
    with i have "j < length vps" by simp
    with rest Suc show ?thesis by (simp add: add.assoc)
  qed
  show ?case unfolding un using c1 c2 c3 by blast
qed


lemma loop_renderers_other:
  "\<not> hasBeenDestroyed s \<Longrightarrow> \<forall>vp \<in> set vps. viewportUID vp \<noteq> u \<Longrightarrow>
   getRenderer u (renderers (snd (setViewports_loop W H vps x s))) = getRenderer u (renderers s)"
proof (induction vps arbitrary: x s)
  case Nil
  then show ?case by simp
next
  case (Cons vp vps)
  let ?s1 = "setViewports_body W H vp x (find (\<lambda>sc. scene_uid sc = sceneUID vp) (scenes s)) s"
  have nd1: "\<not> hasBeenDestroyed ?s1" using Cons.prems by (simp add: body_fields)
  from Cons.prems have o: "\<forall>vp \<in> set vps. viewportUID vp \<noteq> u" and ne: "viewportUID vp \<noteq> u"
    by simp_all
  from Cons.IH [OF nd1 o, of "x + clientWidth (canvas vp)"] ne show ?case
    unfolding loop_unfold [OF Cons.prems(1)] by (simp add: body_renderer)
qed

lemma loop_renderers:
  "\<not> hasBeenDestroyed s \<Longrightarrow> distinct (map viewportUID vps) \<Longrightarrow> i < length vps \<Longrightarrow>
   getRenderer (viewportUID (vps ! i)) (renderers (snd (setViewports_loop W H vps x s)))
     = Some \<lparr>r_uid = viewportUID (vps ! i),
             r_viewport = displayCoords W H
                (x + sum_list (map (\<lambda>vp. clientWidth (canvas vp)) (take i vps))) 0
                (clientWidth (canvas (vps ! i))) (clientHeight (canvas (vps ! i))),
             r_background = (case background (defaultOptions (vps ! i)) of
                               Some b \<Rightarrow> b | None \<Rightarrow> [0, 0, 0])\<rparr>"
proof (induction vps arbitrary: x s i)
  case Nil
  then show ?case by simp
next
  case (Cons vp vps)
  let ?s1 = "setViewports_body W H vp x (find (\<lambda>sc. scene_uid sc = sceneUID vp) (scenes s)) s"
  have nd1: "\<not> hasBeenDestroyed ?s1" using Cons.prems(1) by (simp add: body_fields)
  from Cons.prems(2) have d: "distinct (map viewportUID vps)"
    and o: "\<forall>w \<in> set vps. viewportUID w \<noteq> viewportUID vp"
    by (simp_all add: image_iff) metis
  show ?case
  proof (cases i)
    case 0
    from loop_renderers_other [OF nd1 o, of W H "x + clientWidth (canvas vp)"] 0
    show ?thesis unfolding loop_unfold [OF Cons.prems(1)] by (simp add: body_renderer)
  next
    case (Suc j)
    with Cons.prems(3) have j: "j < length vps" by simp
    from Cons.IH [OF nd1 d j, of "x + clientWidth (canvas vp)"] Suc
    show ?thesis unfolding loop_unfold [OF Cons.prems(1)] by (simp add: add.assoc)
  qed
qed

lemma setViewports_unfold:
  assumes "\<not> hasBeenDestroyed s"
  shows "setViewports vps s
     = setViewports_loop (packing_width (input_sizes vps))
         (Math_max (map (\<lambda>vp. num (clientHeight (canvas vp))) vps)) vps 0
         ((snd (priv_reset s))
            \<lparr>containerWidth := Some (num (packing_width (input_sizes vps))),
             containerHeight := Some (Math_max (map (\<lambda>vp. num (clientHeight (canvas vp))) vps))\<rparr>)"
proof -
  have "fold (\<lambda>vp w. w + clientWidth (canvas vp)) vps 0 = packing_width (input_sizes vps)"
    by (simp add: fold_widths packing_width_def input_sizes_def comp_def)
  then show ?thesis using assms
    by (simp add: setViewports_def priv_throwIfDestroyed_def reset_fields Let_def)
qed

lemma input_height:
  "vps \<noteq> [] \<Longrightarrow>
   Math_max (map (\<lambda>vp. num (clientHeight (canvas vp))) vps)
     = num (packing_height (input_sizes vps))"
  using Math_max_nonempty [of "map (\<lambda>vp. clientHeight (canvas vp)) vps"]
  by (simp add: packing_height_def input_sizes_def comp_def)

lemma packing_rects_nth:
  "i < length ds \<Longrightarrow>
   packing_rects ds ! i = (sum_list (map fst (take i ds)), 0, fst (ds ! i), snd (ds ! i))"
  by (simp add: packing_rects_def)

lemma setViewports_layout:
  assumes nd: "\<not> hasBeenDestroyed s"
  shows "fst (setViewports vps s) = None"
    and "containerWidth (snd (setViewports vps s)) = Some (num (packing_width (input_sizes vps)))"
    and "vps \<noteq> [] \<Longrightarrow>
         containerHeight (snd (setViewports vps s)) = Some (num (packing_height (input_sizes vps)))"
    and "length (allViewports (scenes (snd (setViewports vps s)))) = length vps"
    and "i < length vps \<Longrightarrow>
         \<exists>v \<in> set (allViewports (scenes (snd (setViewports vps s)))).
           vp_uid v = viewportUID (vps ! i) \<and> vp_sceneUID v = sceneUID (vps ! i)
           \<and> source_rect v = packing_rects (input_sizes vps) ! i"
proof -
  let ?W = "packing_width (input_sizes vps)"
  let ?H = "Math_max (map (\<lambda>vp. num (clientHeight (canvas vp))) vps)"
  let ?s2 = "(snd (priv_reset s))\<lparr>containerWidth := Some (num ?W), containerHeight := Some ?H\<rparr>"
  have nd2: "\<not> hasBeenDestroyed ?s2" and sc2: "scenes ?s2 = []"
    using nd by (simp_all add: reset_fields)
  note un = setViewports_unfold [OF nd, of vps]
  note lf = loop_fields [OF nd2, of ?W ?H vps 0]
  note lv = loop_viewports [OF nd2, of ?W ?H vps 0]
  show "fst (setViewports vps s) = None" using lf by (simp add: un)
  show "containerWidth (snd (setViewports vps s)) = Some (num ?W)" using lf by (simp add: un)
  show "containerHeight (snd (setViewports vps s)) = Some (num (packing_height (input_sizes vps)))"
    if "vps \<noteq> []" using lf input_height [OF that] by (simp add: un)
  show "length (allViewports (scenes (snd (setViewports vps s)))) = length vps"
    using lv sc2 by (simp add: un allViewports_def)
  show "\<exists>v \<in> set (allViewports (scenes (snd (setViewports vps s)))).
           vp_uid v = viewportUID (vps ! i) \<and> vp_sceneUID v = sceneUID (vps ! i)
           \<and> source_rect v = packing_rects (input_sizes vps) ! i" if i: "i < length vps"
  proof -
    have "packing_rects (input_sizes vps) ! i
        = (sum_list (map (\<lambda>vp. clientWidth (canvas vp)) (take i vps)), 0,
           clientWidth (canvas (vps ! i)), clientHeight (canvas (vps ! i)))"
      using i by (simp add: packing_rects_nth input_sizes_def take_map comp_def)
    with lv i show ?thesis by (simp add: un)
  qed
qed


lemma getRenderer_reposition:
  "(getRenderer u (update_first (\<lambda>r. r_uid r = k) (\<lambda>r. r\<lparr>r_viewport := z\<rparr>) rs) = None)
     = (getRenderer u rs = None)"
  by (induction rs) (auto simp: getRenderer_def)

lemma resize_loop_ok:
  "\<forall>v \<in> set vs. getRenderer (vp_uid v) rs \<noteq> None \<Longrightarrow>
   \<exists>vs' rs'. resize_loop W H vs x rs = (None, vs', rs')
     \<and> length vs' = length vs
     \<and> (\<forall>i < length vs.
           vp_uid (vs' ! i) = vp_uid (vs ! i)
           \<and> vp_sceneUID (vs' ! i) = vp_sceneUID (vs ! i)
           \<and> source_rect (vs' ! i)
               = (x + sum_list (map (\<lambda>v. clientWidth (vp_canvas v)) (take i vs)), 0,
                  clientWidth (vp_canvas (vs ! i)), clientHeight (vp_canvas (vs ! i))))"
proof (induction vs arbitrary: x rs)
  case Nil
  show ?case by simp
next
  case (Cons v vs)
  let ?c = "syncCanvas (vp_canvas v)"
  let ?v' = "v\<lparr>vp_canvas := ?c, sx := x, sy := 0, sWidth := clientWidth ?c,
                 sHeight := clientHeight ?c\<rparr>"
  let ?rs' = "update_first (\<lambda>r. r_uid r = vp_uid v)
                (\<lambda>r. r\<lparr>r_viewport := displayCoords W H x 0 (clientWidth ?c) (clientHeight ?c)\<rparr>) rs"
  from Cons.prems obtain r where r: "getRenderer (vp_uid v) rs = Some r" by auto
  have "\<forall>w \<in> set vs. getRenderer (vp_uid w) ?rs' \<noteq> None"
    using Cons.prems by (simp add: getRenderer_reposition)
  from Cons.IH [OF this, of "x + clientWidth ?c"] obtain vs' rs'' where
    eq: "resize_loop W H vs (x + clientWidth ?c) ?rs' = (None, vs', rs'')"
    and len: "length vs' = length vs"
    and nth: "\<forall>i < length vs.
           vp_uid (vs' ! i) = vp_uid (vs ! i)
           \<and> vp_sceneUID (vs' ! i) = vp_sceneUID (vs ! i)
           \<and> source_rect (vs' ! i)
               = (x + clientWidth ?c + sum_list (map (\<lambda>v. clientWidth (vp_canvas v)) (take i vs)), 0,
                  clientWidth (vp_canvas (vs ! i)), clientHeight (vp_canvas (vs ! i)))"
    by blast
  have res: "resize_loop W H (v # vs) x rs = (None, ?v' # vs', rs'')"
    using r eq by (simp add: Let_def)
  have "vp_uid ((?v' # vs') ! i) = vp_uid ((v # vs) ! i)
           \<and> vp_sceneUID ((?v' # vs') ! i) = vp_sceneUID ((v # vs) ! i)
           \<and> source_rect ((?v' # vs') ! i)
               = (x + sum_list (map (\<lambda>v. clientWidth (vp_canvas v)) (take i (v # vs))), 0,
                  clientWidth (vp_canvas ((v # vs) ! i)), clientHeight (vp_canvas ((v # vs) ! i)))"
    if i: "i < length (v # vs)" for i
  proof (cases i)
    case 0
    then show ?thesis by (simp add: source_rect_def)
  next
    case (Suc j)
    with i have "j < length vs" by simp
    with nth Suc show ?thesis by (simp add: add.assoc)
  qed
  with res len show ?case by simp
qed

lemma put_back_all:
  "length vs = length (allViewports scs) \<Longrightarrow> allViewports (put_back scs vs) = vs"
  unfolding allViewports_concat
proof (induction scs arbitrary: vs)
  case Nil
  then show ?case by simp
next
  case (Cons sc scs)
  then have "length (drop (length (scene_viewports sc)) vs)
               = length (concat (map scene_viewports scs))" by simp
  from Cons.IH [OF this] Cons.prems show ?case by simp
qed

lemma viewport_height:
  "vs \<noteq> [] \<Longrightarrow>
   Math_max (map (\<lambda>v. num (clientHeight (vp_canvas v))) vs)
     = num (packing_height (viewport_sizes vs))"
  using Math_max_nonempty [of "map (\<lambda>v. clientHeight (vp_canvas v)) vs"]
  by (simp add: packing_height_def viewport_sizes_def comp_def)

lemma render_fields:
  "\<not> hasBeenDestroyed s \<Longrightarrow>
   fst (render s) = None \<and> scenes (snd (render s)) = scenes s
   \<and> containerWidth (snd (render s)) = containerWidth s
   \<and> containerHeight (snd (render s)) = containerHeight s"
  by (simp add: render_def getViewports_def priv_throwIfDestroyed_def priv_set_unfold
      priv_render_def requestAnimationFrame_def)

lemma resize_layout:
  assumes nd: "\<not> hasBeenDestroyed s"
    and rs: "\<forall>v \<in> set (allViewports (scenes s)). getRenderer (vp_uid v) (renderers s) \<noteq> None"
  shows "fst (resize s) = None"
    and "containerWidth (snd (resize s))
           = Some (num (packing_width (viewport_sizes (allViewports (scenes s)))))"
    and "allViewports (scenes s) \<noteq> [] \<Longrightarrow>
         containerHeight (snd (resize s))
           = Some (num (packing_height (viewport_sizes (allViewports (scenes s)))))"
    and "map vp_uid (allViewports (scenes (snd (resize s)))) = map vp_uid (allViewports (scenes s))"
    and "map vp_sceneUID (allViewports (scenes (snd (resize s))))
           = map vp_sceneUID (allViewports (scenes s))"
    and "map source_rect (allViewports (scenes (snd (resize s))))
           = packing_rects (viewport_sizes (allViewports (scenes s)))"
proof -
  let ?V = "allViewports (scenes s)"
  let ?W = "fold (\<lambda>vp w. w + clientWidth (vp_canvas vp)) ?V 0"
  let ?H = "Math_max (map (\<lambda>vp. num (clientHeight (vp_canvas vp))) ?V)"
  have W: "?W = packing_width (viewport_sizes ?V)"
    by (simp add: fold_widths packing_width_def viewport_sizes_def comp_def)
  from resize_loop_ok [OF rs, of ?W ?H 0] obtain vs' rs' where
    eq: "resize_loop ?W ?H ?V 0 (renderers s) = (None, vs', rs')"
    and len: "length vs' = length ?V"
    and nth: "\<forall>i < length ?V.
           vp_uid (vs' ! i) = vp_uid (?V ! i)
           \<and> vp_sceneUID (vs' ! i) = vp_sceneUID (?V ! i)
           \<and> source_rect (vs' ! i)
               = (0 + sum_list (map (\<lambda>v. clientWidth (vp_canvas v)) (take i ?V)), 0,
                  clientWidth (vp_canvas (?V ! i)), clientHeight (vp_canvas (?V ! i)))"
    by blast
  let ?s1 = "s\<lparr>containerWidth := Some (num ?W), containerHeight := Some ?H,
               scenes := put_back (scenes s) vs', renderers := rs'\<rparr>"
  have r: "resize s = render ?s1"
    using nd eq by (simp add: resize_def priv_throwIfDestroyed_def Let_def)
  have nd1: "\<not> hasBeenDestroyed ?s1" using nd by simp
  note rf = render_fields [OF nd1]
  have all: "allViewports (scenes (snd (resize s))) = vs'"
    using rf len by (simp add: r put_back_all)
  show "fst (resize s) = None" using rf by (simp add: r)
  show "containerWidth (snd (resize s)) = Some (num (packing_width (viewport_sizes ?V)))"
    using rf W by (simp add: r)
  show "containerHeight (snd (resize s)) = Some (num (packing_height (viewport_sizes ?V)))"
    if "?V \<noteq> []" using rf viewport_height [OF that] by (simp add: r)
  show "map vp_uid (allViewports (scenes (snd (resize s)))) = map vp_uid ?V"
    unfolding all using len nth by (simp add: list_eq_iff_nth_eq)
  show "map vp_sceneUID (allViewports (scenes (snd (resize s)))) = map vp_sceneUID ?V"
    unfolding all using len nth by (simp add: list_eq_iff_nth_eq)
  show "map source_rect (allViewports (scenes (snd (resize s)))) = packing_rects (viewport_sizes ?V)"
    unfolding all
  proof (rule nth_equalityI)
    show "length (map source_rect vs') = length (packing_rects (viewport_sizes ?V))"
      by (simp add: len packing_rects_def viewport_sizes_def)
    fix i assume "i < length (map source_rect vs')"
    then have i: "i < length ?V" by (simp add: len)
    then have "packing_rects (viewport_sizes ?V) ! i
        = (sum_list (map (\<lambda>v. clientWidth (vp_canvas v)) (take i ?V)), 0,
           clientWidth (vp_canvas (?V ! i)), clientHeight (vp_canvas (?V ! i)))"
      by (simp add: packing_rects_nth viewport_sizes_def take_map comp_def)
    with nth i len show "map source_rect vs' ! i = packing_rects (viewport_sizes ?V) ! i"
      by simp
  qed
qed

subsection \<open>Invariants of the reachable states\<close>

lemma sched_ok_reset: "sched_ok s \<Longrightarrow> sched_ok (snd (priv_reset s))"
  by (cases "hasBeenDestroyed s")
     (simp_all add: reset_fields sched_ok_def priv_reset_def getScenes_def
        priv_throwIfDestroyed_def)

lemma sched_ok_destroy: "sched_ok s \<Longrightarrow> sched_ok (snd (destroy s))"
  by (cases "hasBeenDestroyed s")
     (simp_all add: destroy_fields reset_fields destroyed_destroy sched_ok_def)

lemma sched_ok_setViewports: "sched_ok s \<Longrightarrow> sched_ok (snd (setViewports vps s))"
proof (cases "hasBeenDestroyed s")
  case True
  assume "sched_ok s"
  with True show ?thesis by (simp add: destroyed_setViewports)
next
  case False
  from setViewports_clean(1) [OF False, of vps] show ?thesis by (simp add: sched_ok_def)
qed

lemma sched_ok_perform: "sched_ok s \<Longrightarrow> sched_ok (snd (perform r s))"
  by (simp add: perform_is_request priv_set_sched(1))

lemma resize_loop_shape:
  "\<exists>e vs' rs'. resize_loop W H vs x rs = (e, vs', rs')"
  by (cases "resize_loop W H vs x rs") auto

lemma sched_ok_resize: "sched_ok s \<Longrightarrow> sched_ok (snd (resize s))"
proof (cases "hasBeenDestroyed s")
  case True
  assume "sched_ok s"
  with True show ?thesis by (simp add: destroyed_resize)
next
  case False
  assume ok: "sched_ok s"
  let ?V = "allViewports (scenes s)"
  let ?W = "fold (\<lambda>vp w. w + clientWidth (vp_canvas vp)) ?V 0"
  let ?H = "Math_max (map (\<lambda>vp. num (clientHeight (vp_canvas vp))) ?V)"
  obtain e vs' rs' where eq: "resize_loop ?W ?H ?V 0 (renderers s) = (e, vs', rs')"
    using resize_loop_shape by blast
  let ?s1 = "s\<lparr>containerWidth := Some (num ?W), containerHeight := Some ?H,
               scenes := put_back (scenes s) vs', renderers := rs'\<rparr>"
  have ok1: "sched_ok ?s1" using ok by (simp add: sched_ok_def)
  have "snd (resize s) = (case e of Some er \<Rightarrow> ?s1 | None \<Rightarrow> snd (render ?s1))"
    using False eq by (simp add: resize_def priv_throwIfDestroyed_def Let_def split: option.splits)
  moreover have "sched_ok (snd (render ?s1))" using sched_ok_perform [OF ok1, of Render] by simp
  ultimately show ?thesis using ok1 by (simp split: option.splits)
qed

lemma sched_ok_fire: "sched_ok s \<Longrightarrow> sched_ok (snd (fireAnimationFrame h L rp s))"
proof -
  assume "sched_ok s"
  then have "sched_ok (s\<lparr>rafPending := removeAll h (rafPending s)\<rparr>)"
    by (simp add: sched_ok_def)
  from callback_sched [OF this, of L rp] show ?thesis by (simp add: fireAnimationFrame_def)
qed

lemma reachable_sched_ok: "reachable s \<Longrightarrow> sched_ok s"
proof (induction rule: reachable.induct)
  case (r_new u fresh)
  show ?case by (simp add: sched_ok_def newRenderingEngine_def)
qed (simp_all add: sched_ok_setViewports sched_ok_resize sched_ok_perform
      sched_ok_destroy sched_ok_fire)


lemma has_renderers_cong:
  "scenes s' = scenes s \<Longrightarrow> renderers s' = renderers s \<Longrightarrow>
   has_renderers s' = has_renderers s"
  by (simp add: has_renderers_def)

lemma priv_set_layout:
  "scenes (priv_setViewportsToBeRenderedNextFrame ids s) = scenes s
   \<and> renderers (priv_setViewportsToBeRenderedNextFrame ids s) = renderers s"
  by (simp add: priv_set_unfold priv_render_def requestAnimationFrame_def)

lemma perform_layout:
  "scenes (snd (perform r s)) = scenes s \<and> renderers (snd (perform r s)) = renderers s"
  by (cases r)
     (simp_all add: render_def renderScene_def renderScenes_def renderFrameOfReference_def
        priv_renderScenes_def renderViewports_def renderViewport_def priv_set_layout
        split: sum.splits option.splits)

lemma fold_requests_layout:
  "scenes (fold (\<lambda>ids s'. snd (renderViewports ids s')) rs s) = scenes s
   \<and> renderers (fold (\<lambda>ids s'. snd (renderViewports ids s')) rs s) = renderers s"
  by (induction rs arbitrary: s) (simp_all add: renderViewports_def priv_set_layout)

lemma flagged_layout:
  "scenes (flagged_viewport L v s) = scenes s
   \<and> renderers (flagged_viewport L v s) = renderers s"
  by (simp add: flagged_viewport_def Let_def priv_renderViewportToCanvas_def
      triggerImageRendered_def fold_requests_layout)

lemma fold_flagged_layout:
  "scenes (fold (flagged_viewport L) vs s) = scenes s
   \<and> renderers (fold (flagged_viewport L) vs s) = renderers s"
  by (induction vs arbitrary: s) (simp_all add: flagged_layout)

lemma fire_layout:
  "scenes (snd (fireAnimationFrame h L rp s)) = scenes s
   \<and> renderers (snd (fireAnimationFrame h L rp s)) = renderers s"
  by (simp add: fireAnimationFrame_def priv_renderFlaggedViewports_def fold_scenes_flat
      fold_flagged_layout split: option.splits)

lemma has_renderers_destroy: "has_renderers s \<Longrightarrow> has_renderers (snd (destroy s))"
  by (cases "hasBeenDestroyed s")
     (simp_all add: destroy_fields reset_fields destroyed_destroy has_renderers_def
        allViewports_def)

lemma body_has_renderers:
  assumes "has_renderers s"
  shows "has_renderers (setViewports_body W H vp x (find (\<lambda>sc. scene_uid sc = sceneUID vp) (scenes s)) s)"
proof -
  let ?s1 = "setViewports_body W H vp x (find (\<lambda>sc. scene_uid sc = sceneUID vp) (scenes s)) s"
  from body_viewports [OF refl, where vp = vp and s = s and x = x and W = W and H = H]
  obtain v as bs where v: "vp_uid v = viewportUID vp"
    and a: "allViewports (scenes s) = as @ bs"
    and b: "allViewports (scenes ?s1) = as @ [v] @ bs"
    by blast
  have "getRenderer (vp_uid w) (renderers ?s1) \<noteq> None" if "w \<in> set (as @ [v] @ bs)" for w
  proof (cases "vp_uid w = viewportUID vp")
    case True
    then show ?thesis by (simp add: body_renderer)
  next
    case False
    with that v have "w \<in> set (allViewports (scenes s))" using a by auto
    with assms False show ?thesis by (simp add: body_renderer has_renderers_def)
  qed
  then show ?thesis unfolding has_renderers_def b by blast
qed

lemma loop_has_renderers:
  "has_renderers s \<Longrightarrow> has_renderers (snd (setViewports_loop W H vps x s))"
proof (induction vps arbitrary: x s)
  case Nil
  then show ?case by simp
next
  case (Cons vp vps)
  show ?case
  proof (cases "hasBeenDestroyed s")
    case True
    with Cons.prems show ?thesis by (simp add: getScene_def priv_throwIfDestroyed_def)
  next
    case False
    from Cons.IH [OF body_has_renderers [OF Cons.prems]] show ?thesis
      unfolding loop_unfold [OF False] .
  qed
qed

lemma has_renderers_setViewports:
  "has_renderers s \<Longrightarrow> has_renderers (snd (setViewports vps s))"
proof (cases "hasBeenDestroyed s")
  case True
  assume "has_renderers s"
  with True show ?thesis by (simp add: destroyed_setViewports)
next
  case False
  let ?s2 = "(snd (priv_reset s))
            \<lparr>containerWidth := Some (num (packing_width (input_sizes vps))),
             containerHeight := Some (Math_max (map (\<lambda>vp. num (clientHeight (canvas vp))) vps))\<rparr>"
  have "has_renderers ?s2" using False
    by (simp add: reset_fields has_renderers_def allViewports_def)
  from loop_has_renderers [OF this] show ?thesis
    by (simp only: setViewports_unfold [OF False])
qed

lemma resize_loop_renderers:
  "resize_loop W H vs x rs = (e, vs', rs') \<Longrightarrow>
   (getRenderer u rs' = None) = (getRenderer u rs = None)"
proof (induction vs arbitrary: x rs e vs' rs')
  case Nil
  then show ?case by simp
next
  case (Cons v vs)
  show ?case
  proof (cases "getRenderer (vp_uid v) rs")
    case None
    with Cons.prems show ?thesis by simp
  next
    case (Some r)
    let ?c = "syncCanvas (vp_canvas v)"
    let ?rs1 = "update_first (\<lambda>r. r_uid r = vp_uid v)
                (\<lambda>r. r\<lparr>r_viewport := displayCoords W H x 0 (clientWidth ?c) (clientHeight ?c)\<rparr>) rs"
    obtain e1 vs1 rs1 where eq: "resize_loop W H vs (x + clientWidth ?c) ?rs1 = (e1, vs1, rs1)"
      using resize_loop_shape by blast
    with Cons.prems Some have "rs' = rs1" by (simp add: Let_def)
    with Cons.IH [OF eq] show ?thesis by (simp add: getRenderer_reposition)
  qed
qed

lemma has_renderers_resize: "has_renderers s \<Longrightarrow> has_renderers (snd (resize s))"
proof (cases "hasBeenDestroyed s")
  case True
  assume "has_renderers s"
  with True show ?thesis by (simp add: destroyed_resize)
next
  case False
  assume hr: "has_renderers s"
  let ?V = "allViewports (scenes s)"
  let ?W = "fold (\<lambda>vp w. w + clientWidth (vp_canvas vp)) ?V 0"
  let ?H = "Math_max (map (\<lambda>vp. num (clientHeight (vp_canvas vp))) ?V)"
  from hr have rs: "\<forall>v \<in> set ?V. getRenderer (vp_uid v) (renderers s) \<noteq> None"
    by (simp add: has_renderers_def)
  from resize_loop_ok [OF rs, of ?W ?H 0] obtain vs' rs' where
    eq: "resize_loop ?W ?H ?V 0 (renderers s) = (None, vs', rs')"
    and len: "length vs' = length ?V"
    and nth: "\<forall>i < length ?V. vp_uid (vs' ! i) = vp_uid (?V ! i)"
    by blast
  let ?s1 = "s\<lparr>containerWidth := Some (num ?W), containerHeight := Some ?H,
               scenes := put_back (scenes s) vs', renderers := rs'\<rparr>"
  have r: "resize s = render ?s1"
    using False eq by (simp add: resize_def priv_throwIfDestroyed_def Let_def)
  have lay: "scenes (snd (resize s)) = scenes ?s1" "renderers (snd (resize s)) = renderers ?s1"
    using perform_layout [of Render ?s1] by (simp_all add: r)
  have all: "allViewports (scenes ?s1) = vs'" using len by (simp add: put_back_all)
  have "getRenderer (vp_uid w) rs' \<noteq> None" if "w \<in> set vs'" for w
  proof -
    from that obtain i where i: "i < length vs'" "w = vs' ! i" by (auto simp: in_set_conv_nth)
    with len nth have "vp_uid w = vp_uid (?V ! i)" and "?V ! i \<in> set ?V" by simp_all
    with rs have "getRenderer (vp_uid w) (renderers s) \<noteq> None" by auto
    then show ?thesis by (simp add: resize_loop_renderers [OF eq])
  qed
  then have "has_renderers ?s1" unfolding has_renderers_def all by simp
  then show ?thesis using has_renderers_cong [OF lay] by simp
qed

lemma reachable_has_renderers: "reachable s \<Longrightarrow> has_renderers s"
proof (induction rule: reachable.induct)
  case (r_new u fresh)
  show ?case by (simp add: has_renderers_def newRenderingEngine_def allViewports_def)
next
  case (r_request s r)
  then show ?case using has_renderers_cong [of "snd (perform r s)" s] by (simp add: perform_layout)
next
  case (r_fire s h L rp)
  then show ?case
    using has_renderers_cong [of "snd (fireAnimationFrame h L rp s)" s] by (simp add: fire_layout)
qed (simp_all add: has_renderers_setViewports has_renderers_resize has_renderers_destroy)

lemma example_AB_inputs: "example_AB = snd (setViewports example_inputs example_engine)"
  by (simp add: example_AB_def example_inputs_def)

text \<open>
  Claim C5: for every viewport configuration the shared offscreen surface is as wide as
  the sum of the client widths of the output surfaces and as high as the largest client
  height, each viewport starts at the running sum of the widths before it with y-offset
  0, and \<^verbatim>\<open>setViewports\<close> and \<^verbatim>\<open>resize\<close> compute this layout by the same function of the
  current sizes. \<^verbatim>\<open>setViewports\<close> lays the descriptors out in their order, \<^verbatim>\<open>resize\<close> the
  viewports in scene order and then viewport order, keeping ids and scenes; both results
  are the packing of the specification. The largest height is that of a configuration
  with at least one viewport. \<^verbatim>\<open>resize\<close> is taken on an engine whose viewports all have
  their renderer, as every reachable engine has (lemma \<open>reachable_has_renderers\<close>).
\<close>

theorem C5_packing:
  assumes "\<not> hasBeenDestroyed s"
  shows "fst (setViewports vps s) = None
     \<and> containerWidth (snd (setViewports vps s)) = Some (num (packing_width (input_sizes vps)))
     \<and> (vps \<noteq> [] \<longrightarrow>
          containerHeight (snd (setViewports vps s))
            = Some (num (packing_height (input_sizes vps))))
     \<and> length (allViewports (scenes (snd (setViewports vps s)))) = length vps
     \<and> (\<forall>i < length vps.
           \<exists>v \<in> set (allViewports (scenes (snd (setViewports vps s)))).
             vp_uid v = viewportUID (vps ! i) \<and> vp_sceneUID v = sceneUID (vps ! i)
             \<and> source_rect v = packing_rects (input_sizes vps) ! i)
     \<and> (has_renderers s \<longrightarrow>
          fst (resize s) = None
          \<and> containerWidth (snd (resize s))
              = Some (num (packing_width (viewport_sizes (allViewports (scenes s)))))
          \<and> (allViewports (scenes s) \<noteq> [] \<longrightarrow>
               containerHeight (snd (resize s))
                 = Some (num (packing_height (viewport_sizes (allViewports (scenes s))))))
          \<and> map vp_uid (allViewports (scenes (snd (resize s))))
              = map vp_uid (allViewports (scenes s))
          \<and> map vp_sceneUID (allViewports (scenes (snd (resize s))))
              = map vp_sceneUID (allViewports (scenes s))
          \<and> map source_rect (allViewports (scenes (snd (resize s))))
              = packing_rects (viewport_sizes (allViewports (scenes s))))"
  using setViewports_layout [OF assms, where vps = vps] resize_layout [OF assms]
  unfolding has_renderers_def by blast

theorem C5_packing_witness:
  "\<not> hasBeenDestroyed example_AB
   \<and> map (\<lambda>v. getRenderer (vp_uid v) (renderers example_AB) = None)
         (allViewports (scenes example_AB)) = [False, False]
   \<and> containerWidth (snd (setViewports example_inputs example_AB)) = Some (Fin 600)
   \<and> containerHeight (snd (setViewports example_inputs example_AB)) = Some (Fin 300)
   \<and> containerWidth (snd (resize example_AB)) = Some (Fin 600)
   \<and> containerHeight (snd (resize example_AB)) = Some (Fin 300)
   \<and> map source_rect (allViewports (scenes (snd (resize example_AB))))
       = [(0, 0, 400, 300), (400, 0, 200, 300)]"
proof -
  have h: "\<not> hasBeenDestroyed example_AB" by (simp add: example_AB_eq)
  have r: "has_renderers example_AB"
    using reachable_example_AB by (rule reachable_has_renderers)
  have i: "example_inputs \<noteq> []"
    "packing_width (input_sizes example_inputs) = 600"
    "packing_height (input_sizes example_inputs) = 300"
    by (simp_all add: example_inputs_def example_input_def example_canvas_def
        input_sizes_def packing_width_def packing_height_def)
  have v: "allViewports (scenes example_AB) \<noteq> []"
    "packing_width (viewport_sizes (allViewports (scenes example_AB))) = 600"
    "packing_height (viewport_sizes (allViewports (scenes example_AB))) = 300"
    "packing_rects (viewport_sizes (allViewports (scenes example_AB)))
       = [(0, 0, 400, 300), (400, 0, 200, 300)]"
    by (simp_all add: example_AB_eq allViewports_def viewport_sizes_def packing_width_def
        packing_height_def packing_rects_def upt_rec [of 0] upt_rec [of 1] upt_rec [of 2])
  have r': "map (\<lambda>v. getRenderer (vp_uid v) (renderers example_AB) = None)
         (allViewports (scenes example_AB)) = [False, False]"
    by (simp add: example_AB_eq allViewports_def getRenderer_def)
  from C5_packing [OF h, of example_inputs] h r r' i v show ?thesis by simp
qed

lemma displayCoords_normalized:
  "displayCoords W H x y w h = normalized_rect (x, y, w, h) (num W) H"
  by (simp add: displayCoords_def normalized_rect_def Let_def)

text \<open>
  Claim C6: for every configured viewport, the normalized rectangle registered on the
  shared surface is its pixel source rectangle divided by the dimensions of the shared
  surface with the Y flip: \<open>x0 = sx / W\<close>, \<open>y0 = sy + (H - sHeight) / H\<close>,
  \<open>x1 = x0 + sWidth / W\<close>, \<open>y1 = y0 + sHeight / H\<close>; two viewports of 400 by 300 and 200
  by 300 give a surface of 600 by 300, the source rectangles (0, 0, 400, 300) and
  (400, 0, 200, 300), and the normalized rectangles [0, 0, 2/3, 1] and [2/3, 0, 1, 1].
  Numbers are exact here: 2/3 stands for the double nearest to it. The descriptors name
  distinct viewports, as the data model demands.
\<close>

theorem C6_normalized_rects:
  assumes "\<not> hasBeenDestroyed s" and "distinct (map viewportUID vps)"
  shows "(\<exists>W H. containerWidth (snd (setViewports vps s)) = Some W
            \<and> containerHeight (snd (setViewports vps s)) = Some H
            \<and> (\<forall>i < length vps.
                  \<exists>r. \<exists>v \<in> set (allViewports (scenes (snd (setViewports vps s)))).
                    getRenderer (viewportUID (vps ! i)) (renderers (snd (setViewports vps s)))
                      = Some r
                    \<and> vp_uid v = viewportUID (vps ! i)
                    \<and> source_rect v = packing_rects (input_sizes vps) ! i
                    \<and> r_viewport r = normalized_rect (source_rect v) W H))
     \<and> example_AB = snd (setViewports example_inputs example_engine)
     \<and> containerWidth example_AB = Some (Fin 600)
     \<and> containerHeight example_AB = Some (Fin 300)
     \<and> map (\<lambda>v. (vp_uid v, source_rect v)) (allViewports (scenes example_AB))
         = [(''A'', 0, 0, 400, 300), (''B'', 400, 0, 200, 300)]
     \<and> map (\<lambda>r. (r_uid r, r_viewport r)) (renderers example_AB)
         = [(''A'', Fin 0, Fin 0, Fin (2 / 3), Fin 1), (''B'', Fin (2 / 3), Fin 0, Fin 1, Fin 1)]"
proof -
  let ?W = "packing_width (input_sizes vps)"
  let ?H = "Math_max (map (\<lambda>vp. num (clientHeight (canvas vp))) vps)"
  let ?s2 = "(snd (priv_reset s))\<lparr>containerWidth := Some (num ?W), containerHeight := Some ?H\<rparr>"
  let ?s' = "snd (setViewports vps s)"
  have nd2: "\<not> hasBeenDestroyed ?s2" using assms(1) by (simp add: reset_fields)
  note un = setViewports_unfold [OF assms(1), of vps]
  note lf = loop_fields [OF nd2, of ?W ?H vps 0]
  have cw: "containerWidth ?s' = Some (num ?W)" and ch: "containerHeight ?s' = Some ?H"
    using lf assms(1) by (simp_all add: un reset_fields)
  have each: "\<exists>r. \<exists>v \<in> set (allViewports (scenes ?s')).
                    getRenderer (viewportUID (vps ! i)) (renderers ?s') = Some r
                    \<and> vp_uid v = viewportUID (vps ! i)
                    \<and> source_rect v = packing_rects (input_sizes vps) ! i
                    \<and> r_viewport r = normalized_rect (source_rect v) (num ?W) ?H"
    if i: "i < length vps" for i
  proof -
    from setViewports_layout(5) [OF assms(1) i] obtain v where
      v: "v \<in> set (allViewports (scenes ?s'))" "vp_uid v = viewportUID (vps ! i)"
         "source_rect v = packing_rects (input_sizes vps) ! i"
      by blast
    have p: "packing_rects (input_sizes vps) ! i
        = (sum_list (map (\<lambda>vp. clientWidth (canvas vp)) (take i vps)), 0,
           clientWidth (canvas (vps ! i)), clientHeight (canvas (vps ! i)))"
      using i by (simp add: packing_rects_nth input_sizes_def take_map comp_def)
    from loop_renderers [OF nd2 assms(2) i, of ?W ?H 0]
    obtain r where r: "getRenderer (viewportUID (vps ! i)) (renderers ?s') = Some r"
      "r_viewport r = normalized_rect (packing_rects (input_sizes vps) ! i) (num ?W) ?H"
      by (simp add: un p displayCoords_normalized)
    from r(2) have "r_viewport r = normalized_rect (source_rect v) (num ?W) ?H"
      by (simp only: v(3))
    with v r(1) show ?thesis by blast
  qed
  have ex: "containerWidth example_AB = Some (Fin 600)"
    "containerHeight example_AB = Some (Fin 300)"
    "map (\<lambda>v. (vp_uid v, source_rect v)) (allViewports (scenes example_AB))
         = [(''A'', 0, 0, 400, 300), (''B'', 400, 0, 200, 300)]"
    "map (\<lambda>r. (r_uid r, r_viewport r)) (renderers example_AB)
         = [(''A'', Fin 0, Fin 0, Fin (2 / 3), Fin 1), (''B'', Fin (2 / 3), Fin 0, Fin 1, Fin 1)]"
    by (simp_all add: example_AB_eq allViewports_def source_rect_def)
  from cw ch each ex example_AB_inputs show ?thesis by blast
qed

theorem C6_normalized_rects_witness:
  "\<not> hasBeenDestroyed example_engine
   \<and> distinct (map viewportUID example_inputs)
   \<and> (\<exists>r. getRenderer ''B'' (renderers example_AB) = Some r
          \<and> r_viewport r = normalized_rect (400, 0, 200, 300) (Fin 600) (Fin 300)
          \<and> r_viewport r = (Fin (2 / 3), Fin 0, Fin 1, Fin 1))"
proof -
  have h: "\<not> hasBeenDestroyed example_engine" "distinct (map viewportUID example_inputs)"
    by (simp_all add: example_engine_def newRenderingEngine_def example_inputs_def
        example_input_def)
  have p: "packing_rects (input_sizes example_inputs) ! Suc 0 = (400, 0, 200, 300)"
    "viewportUID (example_inputs ! Suc 0) = ''B''" "Suc 0 < length example_inputs"
    by (simp_all add: example_inputs_def example_input_def example_canvas_def
        input_sizes_def packing_rects_def upt_rec [of 0] upt_rec [of 1] upt_rec [of 2])
  from C6_normalized_rects [OF h] obtain W H where
    wh: "containerWidth example_AB = Some W" "containerHeight example_AB = Some H"
    and all: "\<forall>i < length example_inputs.
                  \<exists>r. \<exists>v \<in> set (allViewports (scenes example_AB)).
                    getRenderer (viewportUID (example_inputs ! i)) (renderers example_AB) = Some r
                    \<and> vp_uid v = viewportUID (example_inputs ! i)
                    \<and> source_rect v = packing_rects (input_sizes example_inputs) ! i
                    \<and> r_viewport r = normalized_rect (source_rect v) W H"
    unfolding example_AB_inputs [symmetric] by blast
  from wh have WH: "W = Fin 600" "H = Fin 300" by (simp_all add: example_AB_eq)
  from all p(3) obtain r v where
    "getRenderer (viewportUID (example_inputs ! Suc 0)) (renderers example_AB) = Some r"
    "source_rect v = packing_rects (input_sizes example_inputs) ! Suc 0"
    "r_viewport r = normalized_rect (source_rect v) W H"
    by blast
  then have r: "getRenderer ''B'' (renderers example_AB) = Some r"
    "r_viewport r = normalized_rect (400, 0, 200, 300) (Fin 600) (Fin 300)"
    by (simp_all add: p WH)
  from r(1) have "r_viewport r = (Fin (2 / 3), Fin 0, Fin 1, Fin 1)"
    by (auto simp: example_AB_eq getRenderer_def)
  with r h show ?thesis by blast
qed

end
